theory Spec2Isabelle
  imports Main
begin

section \<open>Data model\<close>

text \<open>
  The store module exists in two copies in the repository: \<^verbatim>\<open>core/store/store.ts\<close> and the
  copy bundled behind \<^verbatim>\<open>message-list-view.tsx\<close>. Both are embedded. Code that is the same in
  the two copies is defined once; a function that differs takes the copy as its first
  argument.
\<close>

datatype revision = Store_ts | Bundled

text \<open>
  A tool call of a message. The store reads only its \<^verbatim>\<open>id\<close>.
\<close>

record toolCall =
  toolCallId :: string
  toolCallName :: string
  toolCallArgs :: string

text \<open>
  \<^verbatim>\<open>Message\<close> (imported by the store from \<^verbatim>\<open>../messages\<close>). The optional \<^verbatim>\<open>agent\<close>,
  \<^verbatim>\<open>toolCalls\<close>, \<^verbatim>\<open>finishReason\<close> and \<^verbatim>\<open>interruptFeedback\<close> are options. The optional
  flag \<^verbatim>\<open>isStreaming\<close> is only ever read by the store through its truth value
  (\<^verbatim>\<open>msg.isStreaming\<close>, \<^verbatim>\<open>!msg.isStreaming\<close>), so an absent flag is \<open>False\<close>.
\<close>

record message =
  id' :: string
  threadId :: string
  role :: string
  agent :: "string option"
  content :: string
  contentChunks :: "string list"
  toolCalls :: "toolCall list option"
  isStreaming :: bool
  finishReason :: "string option"
  interruptFeedback :: "string option"

text \<open>
  One increment of the chat stream, \<^verbatim>\<open>{ type, data }\<close>. The store reads \<^verbatim>\<open>type\<close>,
  \<^verbatim>\<open>data.id\<close>, \<^verbatim>\<open>data.thread_id\<close>, \<^verbatim>\<open>data.agent\<close>, \<^verbatim>\<open>data.role\<close> and
  \<^verbatim>\<open>data.tool_call_id\<close>; the other two fields are the payload that merging consumes.
\<close>

record event =
  ev_type :: string
  ev_id :: string
  ev_thread_id :: string
  ev_agent :: "string option"
  ev_role :: string
  ev_tool_call_id :: string
  ev_content :: "string option"
  ev_finish_reason :: "string option"

text \<open>\<^verbatim>\<open>FinalPaperResponse\<close>, the answer of the compiled-document service.\<close>

record finalPaperResponse =
  final_paper :: string
  status :: string
  paper_writing_mode :: bool

text \<open>
  What a \<^verbatim>\<open>catch\<close> receives: an \<^verbatim>\<open>Error\<close> object with its message, or any other value.
\<close>

datatype thrown = ErrorObject string | OtherValue

text \<open>The four regular expressions of \<^verbatim>\<open>sectionIndicators\<close>, in the order of the array.\<close>

datatype indicator = MarkdownH2 | NumberedSection | SectionN | ChineseSection

text \<open>
  Functions the store calls whose code is outside the store module: \<^verbatim>\<open>mergeMessage\<close>
  (from \<^verbatim>\<open>../messages\<close>; it may throw), the \<^verbatim>\<open>section_content\<close> field of
  \<^verbatim>\<open>parseJSON(content, {})\<close> (from \<^verbatim>\<open>../utils\<close>; \<open>None\<close> when the field is absent),
  the number of matches \<^verbatim>\<open>String.prototype.match\<close> finds for a global pattern (0 for
  \<^verbatim>\<open>null\<close>), \<^verbatim>\<open>toLowerCase\<close>, and \<^verbatim>\<open>JSON.stringify\<close> of the final paper card. They are
  parameters of the model.
\<close>

record runtime =
  mergeMessage :: "message \<Rightarrow> event \<Rightarrow> thrown + message"
  section_content :: "string \<Rightarrow> string option"
  matchCount :: "indicator \<Rightarrow> string \<Rightarrow> nat"
  toLowerCase :: "string \<Rightarrow> string"
  stringifyCard :: "finalPaperResponse \<Rightarrow> string"

text \<open>
  The zustand state. \<^verbatim>\<open>messages\<close> is a JavaScript \<^verbatim>\<open>Map\<close>, iterated in insertion order
  by \<^verbatim>\<open>values()\<close>: an association list. The three research maps are only read with
  \<^verbatim>\<open>get\<close> and written with \<^verbatim>\<open>set\<close>: HOL maps.

  The last two fields are not fields of the store. \<open>timers\<close> is the queue of pending
  \<^verbatim>\<open>setTimeout\<close> callbacks of \<^verbatim>\<open>checkAndFetchFinalPaper\<close>, one thread id per callback;
  \<open>fetchCalls\<close> records every invocation of \<^verbatim>\<open>fetchFinalPaper\<close> (one request to the
  service each), in order.
\<close>

record state =
  responding :: bool
  threadId_store :: "string option"
  messageIds :: "string list"
  messages :: "(string \<times> message) list"
  researchIds :: "string list"
  researchPlanIds :: "string \<rightharpoonup> string"
  researchReportIds :: "string \<rightharpoonup> string"
  researchActivityIds :: "string \<rightharpoonup> string list"
  ongoingResearchId :: "string option"
  openResearchId :: "string option"
  paperSections :: "string list"
  paperOutlineId :: "string option"
  completedPaperId :: "string option"
  finalPaper :: "finalPaperResponse option"
  finalPaperLoading :: bool
  finalPaperError :: "string option"
  timers :: "string list"
  fetchCalls :: "string list"

definition initialState :: "string \<Rightarrow> state" where
  "initialState THREAD_ID =
     \<lparr> responding = False, threadId_store = Some THREAD_ID, messageIds = [],
       messages = [], researchIds = [], researchPlanIds = Map.empty,
       researchReportIds = Map.empty, researchActivityIds = Map.empty,
       ongoingResearchId = None, openResearchId = None, paperSections = [],
       paperOutlineId = None, completedPaperId = None, finalPaper = None,
       finalPaperLoading = False, finalPaperError = None, timers = [], fetchCalls = [] \<rparr>"

subsection \<open>The insertion-ordered Map\<close>

text \<open>
  \<^verbatim>\<open>new Map(old).set(k, v)\<close>: an existing key keeps its place, a new key goes last.
\<close>

fun Map_set :: "'k \<Rightarrow> 'v \<Rightarrow> ('k \<times> 'v) list \<Rightarrow> ('k \<times> 'v) list" where
  "Map_set k v [] = [(k, v)]"
| "Map_set k v ((k', v') # kvs) =
     (if k' = k then (k, v) # kvs else (k', v') # Map_set k v kvs)"

definition Map_get :: "'k \<Rightarrow> ('k \<times> 'v) list \<Rightarrow> 'v option" where
  "Map_get k kvs = map_of kvs k"

definition Map_values :: "('k \<times> 'v) list \<Rightarrow> 'v list" where
  "Map_values kvs = map snd kvs"

text \<open>
  The truth value JavaScript gives a \<^verbatim>\<open>string | null\<close>: \<^verbatim>\<open>null\<close> and the empty string are
  falsy.
\<close>

fun truthy :: "string option \<Rightarrow> bool" where
  "truthy None = False"
| "truthy (Some x) = (x \<noteq> [])"

section \<open>The store's methods\<close>

definition store_appendMessage :: "message \<Rightarrow> state \<Rightarrow> state" where
  "store_appendMessage m s =
     s\<lparr> messageIds := messageIds s @ [id' m],
        messages := Map_set (id' m) m (messages s) \<rparr>"

definition store_updateMessage :: "message \<Rightarrow> state \<Rightarrow> state" where
  "store_updateMessage m s = s\<lparr> messages := Map_set (id' m) m (messages s) \<rparr>"

definition store_updateMessages :: "message list \<Rightarrow> state \<Rightarrow> state" where
  "store_updateMessages ms s =
     s\<lparr> messages := fold (\<lambda>m acc. Map_set (id' m) m acc) ms (messages s) \<rparr>"

definition openResearch :: "string option \<Rightarrow> state \<Rightarrow> state" where
  "openResearch researchId s = s\<lparr> openResearchId := researchId \<rparr>"

definition closeResearch :: "state \<Rightarrow> state" where
  "closeResearch s = s\<lparr> openResearchId := None \<rparr>"

definition setOngoingResearch :: "string option \<Rightarrow> state \<Rightarrow> state" where
  "setOngoingResearch researchId s = s\<lparr> ongoingResearchId := researchId \<rparr>"

definition setResponding :: "bool \<Rightarrow> state \<Rightarrow> state" where
  "setResponding v s = s\<lparr> responding := v \<rparr>"

definition addPaperSection :: "string \<Rightarrow> state \<Rightarrow> state" where
  "addPaperSection sectionContent s =
     s\<lparr> paperSections := paperSections s @ [sectionContent] \<rparr>"

definition setPaperOutline :: "string \<Rightarrow> state \<Rightarrow> state" where
  "setPaperOutline outlineId s = s\<lparr> paperOutlineId := Some outlineId \<rparr>"

definition setCompletedPaper :: "string \<Rightarrow> state \<Rightarrow> state" where
  "setCompletedPaper paperId s = s\<lparr> completedPaperId := Some paperId \<rparr>"

definition resetPaperState :: "state \<Rightarrow> state" where
  "resetPaperState s = s\<lparr> paperSections := [], completedPaperId := None \<rparr>"

definition clearFinalPaper :: "state \<Rightarrow> state" where
  "clearFinalPaper s =
     s\<lparr> finalPaper := None, finalPaperError := None, finalPaperLoading := False \<rparr>"

subsection \<open>fetchFinalPaper\<close>

text \<open>
  \<^verbatim>\<open>fetchFinalPaper\<close> is asynchronous: the part before \<^verbatim>\<open>await getFinalPaper(threadId)\<close>
  runs when it is invoked, the rest when the service answers, with other tasks of the
  event loop in between. \<open>fetchFinalPaper_begin\<close> is the first part and
  \<open>fetchFinalPaper_resolve\<close> the second, given the answer: \<open>Inr\<close> the response, \<open>Inl\<close>
  what the call threw.
\<close>

definition fetchFinalPaper_begin :: "string \<Rightarrow> state \<Rightarrow> state" where
  "fetchFinalPaper_begin tid s =
     s\<lparr> finalPaperLoading := True, finalPaperError := None,
        fetchCalls := fetchCalls s @ [tid] \<rparr>"

definition errorMessage :: "thrown \<Rightarrow> string" where
  "errorMessage e =
     (case e of ErrorObject msg \<Rightarrow> msg | OtherValue \<Rightarrow> ''Failed to fetch final paper'')"

text \<open>
  The message card the bundled copy appends after a successful fetch; \<open>nid\<close> is the id
  \<^verbatim>\<open>nanoid()\<close> returns.
\<close>

definition finalPaperMessage :: "runtime \<Rightarrow> string \<Rightarrow> string \<Rightarrow> finalPaperResponse \<Rightarrow> message" where
  "finalPaperMessage rt nid tid fp =
     \<lparr> id' = nid, threadId = tid, role = ''assistant'', agent = Some ''final_paper'',
       content = stringifyCard rt fp, contentChunks = [final_paper fp],
       toolCalls = None, isStreaming = False, finishReason = None,
       interruptFeedback = None \<rparr>"

definition fetchFinalPaper_resolve ::
  "revision \<Rightarrow> runtime \<Rightarrow> string \<Rightarrow> string \<Rightarrow> thrown + finalPaperResponse \<Rightarrow> state \<Rightarrow> state" where
  "fetchFinalPaper_resolve rv rt nid tid answer s =
     (case answer of
        Inr fp \<Rightarrow>
          (let s1 = s\<lparr> finalPaper := Some fp, finalPaperLoading := False \<rparr>
           in if rv = Bundled \<and> final_paper fp \<noteq> []
              then store_appendMessage (finalPaperMessage rt nid tid fp) s1
              else s1)
      | Inl e \<Rightarrow>
          s\<lparr> finalPaperError := Some (errorMessage e), finalPaperLoading := False \<rparr>)"

section \<open>Research aggregation\<close>

text \<open>
  A property read of \<^verbatim>\<open>undefined\<close> throws a \<^verbatim>\<open>TypeError\<close>: \<^verbatim>\<open>planMessage!.id\<close> when no
  planner message was found, \<^verbatim>\<open>current.includes\<close> when the ongoing research has no
  activity list.
\<close>

definition TypeError :: thrown where
  "TypeError = ErrorObject ''Cannot read properties of undefined''"

definition getOngoingResearchId :: "state \<Rightarrow> string option" where
  "getOngoingResearchId s = ongoingResearchId s"

definition existsMessage :: "string \<Rightarrow> state \<Rightarrow> bool" where
  "existsMessage i s = (i \<in> set (messageIds s))"

definition getMessage :: "string \<Rightarrow> state \<Rightarrow> message option" where
  "getMessage i s = Map_get i (messages s)"

definition findMessageByToolCallId :: "string \<Rightarrow> state \<Rightarrow> message option" where
  "findMessageByToolCallId tcid s =
     find (\<lambda>m. case toolCalls m of
                  Some tcs \<Rightarrow> list_ex (\<lambda>tc. toolCallId tc = tcid) tcs
                | None \<Rightarrow> False)
          (rev (Map_values (messages s)))"

text \<open>
  The loop of \<^verbatim>\<open>appendResearch\<close> over the reversed id list: the first id whose message is
  tagged \<^verbatim>\<open>planner\<close> ends it.
\<close>

fun findPlanMessage :: "string list \<Rightarrow> state \<Rightarrow> message option" where
  "findPlanMessage [] s = None"
| "findPlanMessage (messageId # rest) s =
     (case getMessage messageId s of
        Some m \<Rightarrow> if agent m = Some ''planner'' then Some m else findPlanMessage rest s
      | None \<Rightarrow> findPlanMessage rest s)"

definition appendResearch :: "string \<Rightarrow> state \<Rightarrow> thrown + state" where
  "appendResearch researchId s =
     (case findPlanMessage (rev (messageIds s)) s of
        None \<Rightarrow> Inl TypeError
      | Some planMessage \<Rightarrow>
          Inr (s\<lparr> ongoingResearchId := Some researchId,
                  researchIds := researchIds s @ [researchId],
                  researchPlanIds := (researchPlanIds s)(researchId \<mapsto> id' planMessage),
                  researchActivityIds :=
                    (researchActivityIds s)(researchId \<mapsto> [id' planMessage, researchId]) \<rparr>))"

definition appendResearchActivity :: "message \<Rightarrow> state \<Rightarrow> thrown + state" where
  "appendResearchActivity m s =
     (case getOngoingResearchId s of
        None \<Rightarrow> Inr s
      | Some researchId \<Rightarrow>
          if researchId = [] then Inr s
          else
            (case researchActivityIds s researchId of
               None \<Rightarrow> Inl TypeError
             | Some current \<Rightarrow>
                 (let s1 = (if id' m \<notin> set current
                            then s\<lparr> researchActivityIds :=
                                      (researchActivityIds s)(researchId \<mapsto> current @ [id' m]) \<rparr>
                            else s);
                      s2 = (if agent m = Some ''reporter''
                            then s1\<lparr> researchReportIds :=
                                       (researchReportIds s1)(researchId \<mapsto> id' m) \<rparr>
                            else s1)
                  in Inr s2)))"

text \<open>The agent tags that make \<^verbatim>\<open>appendMessage\<close> aggregate a message into a research.\<close>

definition isResearchAgent :: "revision \<Rightarrow> string option \<Rightarrow> bool" where
  "isResearchAgent rv a =
     (a = Some ''coder'' \<or> a = Some ''thinking'' \<or> a = Some ''reporter'' \<or>
      a = Some ''researcher'' \<or>
      (rv = Bundled \<and>
        (a = Some ''outline_writer'' \<or> a = Some ''paper_writer'' \<or>
         a = Some ''references_writer'')))"

section \<open>Paper-writing workflow\<close>

text \<open>
  White space of \<^verbatim>\<open>String.prototype.trim\<close> among the characters of type \<open>char\<close>: tab, line
  feed, vertical tab, form feed, carriage return, space and no-break space.
\<close>

definition isWhiteSpace :: "char \<Rightarrow> bool" where
  "isWhiteSpace c = (of_char c \<in> {9, 10, 11, 12, 13, 32, 160 :: nat})"

definition trim :: "string \<Rightarrow> string" where
  "trim str = rev (dropWhile isWhiteSpace (rev (dropWhile isWhiteSpace str)))"

text \<open>
  The section extraction both handlers run on a committed \<^verbatim>\<open>paper_writer\<close> message: the
  \<^verbatim>\<open>section_content\<close> field when it is truthy, else the whole content when it is not
  blank, else nothing.
\<close>

definition addSectionOf :: "runtime \<Rightarrow> message \<Rightarrow> state \<Rightarrow> state" where
  "addSectionOf rt m s =
     (case section_content rt (content m) of
        Some sc \<Rightarrow>
          if sc \<noteq> [] then addPaperSection sc s
          else if trim (content m) \<noteq> [] then addPaperSection (content m) s
          else s
      | None \<Rightarrow>
          if trim (content m) \<noteq> [] then addPaperSection (content m) s else s)"

text \<open>
  \<^verbatim>\<open>checkAndFetchFinalPaper\<close> only sets a timer (1000 ms in \<^verbatim>\<open>store.ts\<close>, 3000 ms in the
  bundled copy; the delay itself is not modelled). Its callback is \<open>completionCheck\<close>
  below.
\<close>

definition checkAndFetchFinalPaper :: "string \<Rightarrow> state \<Rightarrow> state" where
  "checkAndFetchFinalPaper tid s = s\<lparr> timers := timers s @ [tid] \<rparr>"

definition isPaperWritingWorkflow :: "state \<Rightarrow> bool" where
  "isPaperWritingWorkflow s =
     list_ex (\<lambda>msg. agent msg = Some ''paper_writer'' \<or> agent msg = Some ''outline_writer'')
       (Map_values (messages s))"

text \<open>The workflow part shared by \<^verbatim>\<open>appendMessage\<close> and \<^verbatim>\<open>updateMessage\<close>.\<close>

definition paperWorkflow :: "revision \<Rightarrow> runtime \<Rightarrow> message \<Rightarrow> state \<Rightarrow> state" where
  "paperWorkflow rv rt m s =
     (let s1 = (if agent m = Some ''outline_writer'' \<and> \<not> isStreaming m
                then resetPaperState (setPaperOutline (id' m) s) else s);
          s2 = (if agent m = Some ''paper_writer'' \<and> \<not> isStreaming m
                then (let s' = addSectionOf rt m s1
                      in if rv = Store_ts then checkAndFetchFinalPaper (threadId m) s' else s')
                else s1);
          s3 = (if rv = Bundled \<and> agent m = Some ''references_writer'' \<and> \<not> isStreaming m
                then checkAndFetchFinalPaper (threadId m) s2 else s2)
      in s3)"

text \<open>
  \<^verbatim>\<open>appendMessage\<close> (the module function). A throw can only come from the research part,
  which runs first, and comes before any write of this call: the state at the throw is
  the argument. The \<^verbatim>\<open>reporter\<close> block at the end of the source only logs.
\<close>

definition appendMessage :: "revision \<Rightarrow> runtime \<Rightarrow> message \<Rightarrow> state \<Rightarrow> thrown + state" where
  "appendMessage rv rt m s =
     (let r1 =
        (if isResearchAgent rv (agent m) then
           (case (if \<not> truthy (getOngoingResearchId s)
                  then (case appendResearch (id' m) s of
                          Inl e \<Rightarrow> Inl e
                        | Inr s' \<Rightarrow> Inr (openResearch (Some (id' m)) s'))
                  else Inr s) of
              Inl e \<Rightarrow> Inl e
            | Inr s' \<Rightarrow> appendResearchActivity m s')
         else Inr s)
      in case r1 of
           Inl e \<Rightarrow> Inl e
         | Inr s1 \<Rightarrow> Inr (store_appendMessage m (paperWorkflow rv rt m s1)))"

definition updateMessage :: "revision \<Rightarrow> runtime \<Rightarrow> message \<Rightarrow> state \<Rightarrow> state" where
  "updateMessage rv rt m s =
     (let s1 = (if truthy (getOngoingResearchId s) \<and> agent m = Some ''reporter'' \<and>
                   \<not> isStreaming m \<and> \<not> isPaperWritingWorkflow s
                then setOngoingResearch None s else s)
      in store_updateMessage m (paperWorkflow rv rt m s1))"

section \<open>The deferred completion check\<close>

definition allMessages :: "state \<Rightarrow> message list" where
  "allMessages s = Map_values (messages s)"

definition hasPaperWriters :: "state \<Rightarrow> bool" where
  "hasPaperWriters s = list_ex (\<lambda>msg. agent msg = Some ''paper_writer'') (allMessages s)"

definition maxSectionCount :: "runtime \<Rightarrow> string \<Rightarrow> nat" where
  "maxSectionCount rt outlineContent =
     fold (\<lambda>pattern acc. if matchCount rt pattern outlineContent > 0
                          then max acc (matchCount rt pattern outlineContent) else acc)
       [MarkdownH2, NumberedSection, SectionN, ChineseSection] 0"

definition expectedSections :: "runtime \<Rightarrow> state \<Rightarrow> nat" where
  "expectedSections rt s =
     (case find (\<lambda>msg. agent msg = Some ''outline_writer'' \<and> \<not> isStreaming msg) (allMessages s) of
        None \<Rightarrow> 3
      | Some outlineMessage \<Rightarrow>
          if content outlineMessage = [] then 3
          else (let n = maxSectionCount rt (toLowerCase rt (content outlineMessage))
                in if n > 0 then min (max n 2) 8 else 3))"

definition streamingReferencesWriters :: "state \<Rightarrow> message list" where
  "streamingReferencesWriters s =
     filter (\<lambda>msg. agent msg = Some ''references_writer'' \<and> isStreaming msg) (allMessages s)"

definition completedReferencesWriters :: "state \<Rightarrow> message list" where
  "completedReferencesWriters s =
     filter (\<lambda>msg. agent msg = Some ''references_writer'' \<and> \<not> isStreaming msg) (allMessages s)"

definition streamingPaperWriters :: "state \<Rightarrow> message list" where
  "streamingPaperWriters s =
     filter (\<lambda>msg. agent msg = Some ''paper_writer'' \<and> isStreaming msg) (allMessages s)"

definition completedPaperWriters :: "state \<Rightarrow> message list" where
  "completedPaperWriters s =
     filter (\<lambda>msg. agent msg = Some ''paper_writer'' \<and> \<not> isStreaming msg) (allMessages s)"

definition anyStreamingMessages :: "state \<Rightarrow> bool" where
  "anyStreamingMessages s = list_ex isStreaming (allMessages s)"

text \<open>The constant \<^verbatim>\<open>shouldFetch\<close> of each copy.\<close>

definition shouldFetch :: "revision \<Rightarrow> runtime \<Rightarrow> state \<Rightarrow> bool" where
  "shouldFetch rv rt s =
     (case rv of
        Bundled \<Rightarrow>
          hasPaperWriters s \<and>
          length (streamingReferencesWriters s) = 0 \<and>
          length (completedReferencesWriters s) > 0 \<and>
          \<not> anyStreamingMessages s \<and>
          finalPaper s = None
      | Store_ts \<Rightarrow>
          hasPaperWriters s \<and>
          length (streamingPaperWriters s) = 0 \<and>
          \<not> anyStreamingMessages s \<and>
          length (completedPaperWriters s) \<ge> expectedSections rt s \<and>
          finalPaper s = None)"

text \<open>The timer callback of \<^verbatim>\<open>checkAndFetchFinalPaper(threadId)\<close>, run on the state it finds.\<close>

definition completionCheck :: "revision \<Rightarrow> runtime \<Rightarrow> string \<Rightarrow> state \<Rightarrow> state" where
  "completionCheck rv rt tid s =
     (if \<not> isPaperWritingWorkflow s then s
      else if \<not> hasPaperWriters s then s
      else if shouldFetch rv rt s then fetchFinalPaper_begin tid s
      else s)"

text \<open>
  The event loop runs the oldest pending timer (the callbacks of one copy all have the
  same delay, so they fire in the order they were set).
\<close>

definition fireTimer :: "revision \<Rightarrow> runtime \<Rightarrow> state \<Rightarrow> state" where
  "fireTimer rv rt s =
     (case timers s of
        [] \<Rightarrow> s
      | tid # rest \<Rightarrow> completionCheck rv rt tid (s\<lparr> timers := rest \<rparr>))"

section \<open>Consuming the stream\<close>

text \<open>
  The body of the \<^verbatim>\<open>for await\<close> loop of \<^verbatim>\<open>sendMessage\<close>. \<open>Inl (e, s')\<close>: \<open>e\<close> was thrown
  when the state was \<open>s'\<close>.
\<close>

definition newMessage :: "string option \<Rightarrow> event \<Rightarrow> message" where
  "newMessage fb e =
     \<lparr> id' = ev_id e, threadId = ev_thread_id e, role = ev_role e, agent = ev_agent e,
       content = [], contentChunks = [], toolCalls = None, isStreaming = True,
       finishReason = None, interruptFeedback = fb \<rparr>"

definition mergeAndUpdate ::
  "revision \<Rightarrow> runtime \<Rightarrow> event \<Rightarrow> message option \<Rightarrow> state \<Rightarrow> (thrown \<times> state) + state" where
  "mergeAndUpdate rv rt e message s =
     (case message of
        None \<Rightarrow> Inr s
      | Some m \<Rightarrow>
          (case mergeMessage rt m e of
             Inl err \<Rightarrow> Inl (err, s)
           | Inr m' \<Rightarrow> Inr (updateMessage rv rt m' s)))"

definition processEvent ::
  "revision \<Rightarrow> runtime \<Rightarrow> string option \<Rightarrow> event \<Rightarrow> state \<Rightarrow> (thrown \<times> state) + state" where
  "processEvent rv rt fb e s =
     (if ev_type e = ''tool_call_result'' then
        (case findMessageByToolCallId (ev_tool_call_id e) s of
           Some m \<Rightarrow> mergeAndUpdate rv rt e (Some m) s
         | None \<Rightarrow> mergeAndUpdate rv rt e (getMessage (ev_id e) s) s)
      else if \<not> existsMessage (ev_id e) s then
        (case appendMessage rv rt (newMessage fb e) s of
           Inl err \<Rightarrow> Inl (err, s)
         | Inr s' \<Rightarrow> mergeAndUpdate rv rt e (Some (newMessage fb e)) s')
      else mergeAndUpdate rv rt e (getMessage (ev_id e) s) s)"

text \<open>
  The \<^verbatim>\<open>catch\<close> block: the message of the last increment read, when it is still
  streaming, is committed, and the ongoing research is cleared. (The toast is not part of
  the state.)
\<close>

definition catchBlock :: "string option \<Rightarrow> state \<Rightarrow> state" where
  "catchBlock messageId s =
     (let s1 = (case messageId of
                  None \<Rightarrow> s
                | Some i \<Rightarrow>
                    (case getMessage i s of
                       Some m \<Rightarrow>
                         if isStreaming m
                         then store_updateMessage (m\<lparr> isStreaming := False \<rparr>) s
                         else s
                     | None \<Rightarrow> s))
      in setOngoingResearch None s1)"

text \<open>
  What the stream yields: an increment, or the failure of the transport (the iterator
  throws). The loop carries the variable \<^verbatim>\<open>messageId\<close>; the \<^verbatim>\<open>finally\<close> block ends every
  path.
\<close>

datatype item = Increment event | TransportFailure

fun consume ::
  "revision \<Rightarrow> runtime \<Rightarrow> string option \<Rightarrow> item list \<Rightarrow> string option \<Rightarrow> state \<Rightarrow> state" where
  "consume rv rt fb [] messageId s = setResponding False s"
| "consume rv rt fb (TransportFailure # rest) messageId s =
     setResponding False (catchBlock messageId s)"
| "consume rv rt fb (Increment e # rest) messageId s =
     (case processEvent rv rt fb e s of
        Inl (err, s') \<Rightarrow> setResponding False (catchBlock (Some (ev_id e)) s')
      | Inr s' \<Rightarrow> consume rv rt fb rest (Some (ev_id e)) s')"

text \<open>
  \<^verbatim>\<open>sendMessage\<close>: the user's message, when there is one, is appended under a fresh
  \<^verbatim>\<open>nanoid()\<close> before the stream is read; it has no agent, so \<^verbatim>\<open>appendMessage\<close> cannot
  throw on it, and a throw there would be outside the \<^verbatim>\<open>try\<close>.
\<close>

definition userMessage :: "string \<Rightarrow> string \<Rightarrow> string \<Rightarrow> message" where
  "userMessage nid THREAD_ID c =
     \<lparr> id' = nid, threadId = THREAD_ID, role = ''user'', agent = None, content = c,
       contentChunks = [c], toolCalls = None, isStreaming = False, finishReason = None,
       interruptFeedback = None \<rparr>"

definition sendMessage ::
  "revision \<Rightarrow> runtime \<Rightarrow> string \<Rightarrow> string \<Rightarrow> string option \<Rightarrow> string option \<Rightarrow> item list \<Rightarrow>
   state \<Rightarrow> thrown + state" where
  "sendMessage rv rt nid THREAD_ID c fb stream s =
     (case (case c of
              None \<Rightarrow> Inr s
            | Some txt \<Rightarrow> appendMessage rv rt (userMessage nid THREAD_ID txt) s) of
        Inl err \<Rightarrow> Inl err
      | Inr s1 \<Rightarrow> Inr (consume rv rt fb stream None (setResponding True s1)))"

section \<open>Specification-level definitions and concrete inputs\<close>

text \<open>
  The body of a section in the words of the specification: the structured field when the
  content parses as a record with one, else the full message text; nothing for a message
  with neither.
\<close>

definition sectionBody :: "runtime \<Rightarrow> message \<Rightarrow> string option" where
  "sectionBody rt m =
     (let fallback = (if trim (content m) \<noteq> [] then Some (content m) else None)
      in case section_content rt (content m) of
           Some sc \<Rightarrow> if sc \<noteq> [] then Some sc else fallback
         | None \<Rightarrow> fallback)"

text \<open>
  Modelled from the spec: \<^verbatim>\<open>mergeMessage\<close>, whose module \<^verbatim>\<open>../messages\<close> is not among the
  sources. A content increment appends its text to \<^verbatim>\<open>content\<close> and to a new slot of
  \<^verbatim>\<open>contentChunks\<close>; an increment that carries a finish reason sets \<^verbatim>\<open>isStreaming\<close> to
  false and records the reason. It is used for concrete runs only; the theorems hold for
  every \<open>mergeMessage\<close>.
\<close>

definition mergeMessage_spec :: "message \<Rightarrow> event \<Rightarrow> thrown + message" where
  "mergeMessage_spec m e =
     (let m1 = (case ev_content e of
                  Some d \<Rightarrow> m\<lparr> content := content m @ d, contentChunks := contentChunks m @ [d] \<rparr>
                | None \<Rightarrow> m);
          m2 = (case ev_finish_reason e of
                  Some r \<Rightarrow> m1\<lparr> finishReason := Some r, isStreaming := False \<rparr>
                | None \<Rightarrow> m1)
      in Inr m2)"

text \<open>
  A runtime for concrete runs: no content parses as a record with a \<^verbatim>\<open>section_content\<close>
  field and no section indicator matches.
\<close>

definition plainRuntime :: runtime where
  "plainRuntime =
     \<lparr> mergeMessage = mergeMessage_spec, section_content = (\<lambda>c. None),
       matchCount = (\<lambda>p c. 0), toLowerCase = (\<lambda>c. c), stringifyCard = final_paper \<rparr>"

text \<open>A committed message of thread \<open>T\<close> with the given id, agent and content.\<close>

definition committed :: "string \<Rightarrow> string \<Rightarrow> string \<Rightarrow> message" where
  "committed i a c =
     \<lparr> id' = i, threadId = ''T'', role = ''assistant'', agent = Some a, content = c,
       contentChunks = [c], toolCalls = None, isStreaming = False,
       finishReason = Some ''stop'', interruptFeedback = None \<rparr>"

text \<open>A state that holds a section, an outline id and a completed paper id.\<close>

definition paperState :: state where
  "paperState =
     (initialState ''T'')\<lparr> paperSections := [''old section''], completedPaperId := Some ''p0'',
       paperOutlineId := Some ''o0'' \<rparr>"

text \<open>
  A state in which the research \<open>r1\<close>, planned by \<open>pl\<close>, is ongoing, and the same state
  with a committed outline in the store.
\<close>

definition researching :: state where
  "researching =
     (initialState ''T'')\<lparr>
       messageIds := [''pl'', ''r1''],
       messages := [(''pl'', committed ''pl'' ''planner'' ''plan''),
                    (''r1'', committed ''r1'' ''researcher'' ''notes'')],
       researchIds := [''r1''],
       researchPlanIds := [''r1'' \<mapsto> ''pl''],
       researchActivityIds := [''r1'' \<mapsto> [''pl'', ''r1'']],
       ongoingResearchId := Some ''r1'',
       openResearchId := Some ''r1'' \<rparr>"


text \<open>
  Increments of thread \<open>T\<close>: a content chunk, a chunk that carries the finish reason, and
  the result of a tool call.
\<close>

definition chunk :: "string \<Rightarrow> string \<Rightarrow> string \<Rightarrow> event" where
  "chunk i a txt =
     \<lparr> ev_type = ''message_chunk'', ev_id = i, ev_thread_id = ''T'', ev_agent = Some a,
       ev_role = ''assistant'', ev_tool_call_id = [], ev_content = Some txt,
       ev_finish_reason = None \<rparr>"

definition finish :: "string \<Rightarrow> string \<Rightarrow> event" where
  "finish i a =
     \<lparr> ev_type = ''message_chunk'', ev_id = i, ev_thread_id = ''T'', ev_agent = Some a,
       ev_role = ''assistant'', ev_tool_call_id = [], ev_content = None,
       ev_finish_reason = Some ''stop'' \<rparr>"

definition toolResult :: "string \<Rightarrow> string \<Rightarrow> string \<Rightarrow> event" where
  "toolResult i tcid txt =
     \<lparr> ev_type = ''tool_call_result'', ev_id = i, ev_thread_id = ''T'', ev_agent = None,
       ev_role = ''assistant'', ev_tool_call_id = tcid, ev_content = Some txt,
       ev_finish_reason = None \<rparr>"

text \<open>The state \<open>researching\<close> in which the researcher's message has made a tool call.\<close>

definition withToolCall :: state where
  "withToolCall =
     researching\<lparr>
       messages := [(''pl'', committed ''pl'' ''planner'' ''plan''),
                    (''r1'', (committed ''r1'' ''researcher'' ''notes'')\<lparr>
                       toolCalls := Some [\<lparr> toolCallId = ''call1'', toolCallName = ''search'',
                                            toolCallArgs = ''{}'' \<rparr>] \<rparr>)] \<rparr>"

text \<open>
  The conditions (a) to (e) of the completion heuristic in the words of the
  specification: a \<^verbatim>\<open>paper_writer\<close> message exists, no \<^verbatim>\<open>references_writer\<close> message is
  streaming, a \<^verbatim>\<open>references_writer\<close> message has committed, no message is streaming, and no
  final artifact is present.
\<close>

definition specConditions :: "state \<Rightarrow> bool" where
  "specConditions s =
     (list_ex (\<lambda>msg. agent msg = Some ''paper_writer'') (Map_values (messages s)) \<and>
      \<not> list_ex (\<lambda>msg. agent msg = Some ''references_writer'' \<and> isStreaming msg)
           (Map_values (messages s)) \<and>
      list_ex (\<lambda>msg. agent msg = Some ''references_writer'' \<and> \<not> isStreaming msg)
           (Map_values (messages s)) \<and>
      \<not> list_ex isStreaming (Map_values (messages s)) \<and>
      finalPaper s = None)"

text \<open>
  A thread whose one section and whose references have committed; the same with two
  pending timers; a thread with an outline and two committed sections; a thread with
  three committed sections and two pending timers.
\<close>

definition referencesDone :: state where
  "referencesDone =
     (initialState ''T'')\<lparr>
       messageIds := [''pl'', ''p1'', ''rf''],
       messages := [(''pl'', committed ''pl'' ''planner'' ''plan''),
                    (''p1'', committed ''p1'' ''paper_writer'' ''Introduction''),
                    (''rf'', committed ''rf'' ''references_writer'' ''[1] A. Author'')] \<rparr>"

definition bothTimers :: state where
  "bothTimers = referencesDone\<lparr> timers := [''T'', ''T''] \<rparr>"

definition twoSections :: state where
  "twoSections =
     (initialState ''T'')\<lparr>
       messageIds := [''pl'', ''o1'', ''p1'', ''p2''],
       messages := [(''pl'', committed ''pl'' ''planner'' ''plan''),
                    (''o1'', committed ''o1'' ''outline_writer'' ''outline''),
                    (''p1'', committed ''p1'' ''paper_writer'' ''Introduction''),
                    (''p2'', committed ''p2'' ''paper_writer'' ''Method'')] \<rparr>"

definition threeSections :: state where
  "threeSections =
     (initialState ''T'')\<lparr>
       messageIds := [''pl'', ''p1'', ''p2'', ''p3''],
       messages := [(''pl'', committed ''pl'' ''planner'' ''plan''),
                    (''p1'', committed ''p1'' ''paper_writer'' ''Introduction''),
                    (''p2'', committed ''p2'' ''paper_writer'' ''Method''),
                    (''p3'', committed ''p3'' ''paper_writer'' ''Results'')],
       timers := [''T'', ''T''] \<rparr>"

text \<open>
  Every write to \<^verbatim>\<open>messages\<close> is \<^verbatim>\<open>set(message.id, message)\<close>: each entry is stored under the
  id of its message.
\<close>

definition keyed :: "state \<Rightarrow> bool" where
  "keyed s = list_all (\<lambda>(k, m). id' m = k) (messages s)"

text \<open>
  The states of the store while responses are processed: from the initial state, by an
  increment of a stream (processed to the end, or up to a throw), by the \<^verbatim>\<open>catch\<close> block, by
  \<^verbatim>\<open>setResponding\<close>, by the user's message that \<^verbatim>\<open>sendMessage\<close> appends, by a timer of the
  completion check, by the answer to a fetch, and by the user opening or closing a
  research. The ids the stream gives to messages are not empty. Steps are not tied to
  one another (an answer needs no pending request), so the relation holds of every state
  the store can be in, and of some more.
\<close>

inductive reachable :: "revision \<Rightarrow> runtime \<Rightarrow> state \<Rightarrow> bool" for rv :: revision and rt :: runtime
where
  start: "reachable rv rt (initialState THREAD_ID)"
| increment:
    "\<lbrakk>reachable rv rt s; ev_id e \<noteq> []; processEvent rv rt fb e s = Inr s'\<rbrakk>
     \<Longrightarrow> reachable rv rt s'"
| thrown:
    "\<lbrakk>reachable rv rt s; ev_id e \<noteq> []; processEvent rv rt fb e s = Inl (err, s')\<rbrakk>
     \<Longrightarrow> reachable rv rt s'"
| caught: "reachable rv rt s \<Longrightarrow> reachable rv rt (catchBlock messageId s)"
| respond: "reachable rv rt s \<Longrightarrow> reachable rv rt (setResponding v s)"
| user:
    "\<lbrakk>reachable rv rt s; appendMessage rv rt (userMessage nid THREAD_ID c) s = Inr s'\<rbrakk>
     \<Longrightarrow> reachable rv rt s'"
| timer: "reachable rv rt s \<Longrightarrow> reachable rv rt (fireTimer rv rt s)"
| answer: "reachable rv rt s \<Longrightarrow> reachable rv rt (fetchFinalPaper_resolve rv rt nid tid a s)"
| opened: "reachable rv rt s \<Longrightarrow> reachable rv rt (openResearch researchId s)"
| closed: "reachable rv rt s \<Longrightarrow> reachable rv rt (closeResearch s)"

text \<open>A stream whose increments carry non-empty message ids.\<close>

definition properIds :: "item list \<Rightarrow> bool" where
  "properIds stream =
     list_all (\<lambda>it. case it of Increment e \<Rightarrow> ev_id e \<noteq> [] | TransportFailure \<Rightarrow> True) stream"

text \<open>A stream: the planner's message, committed, and the first chunk of a researcher.\<close>

definition planThenResearch :: "item list" where
  "planThenResearch =
     [Increment (chunk ''pl'' ''planner'' ''plan''), Increment (finish ''pl'' ''planner''),
      Increment (chunk ''r1'' ''researcher'' ''notes'')]"

text \<open>A stream that is the planner's message alone, and the state after it.\<close>

definition planOnly :: "item list" where
  "planOnly = [Increment (chunk ''pl'' ''planner'' ''plan''), Increment (finish ''pl'' ''planner'')]"

definition planned :: "revision \<Rightarrow> state" where
  "planned rv = consume rv plainRuntime None planOnly None (initialState ''T'')"

text \<open>
  A stream in which the first message of a researcher carries the empty string as its
  id, the state after it, and the condition under which the research part of
  \<^verbatim>\<open>appendMessage\<close> does not throw: with no research ongoing (a marker that is null or
  empty) a planner message is found, and with a research ongoing it has an activity list.
\<close>

definition emptyIdStream :: "item list" where
  "emptyIdStream =
     [Increment (chunk ''pl'' ''planner'' ''plan''), Increment (finish ''pl'' ''planner''),
      Increment (chunk [] ''researcher'' ''notes'')]"

definition emptyIdOngoing :: "revision \<Rightarrow> state" where
  "emptyIdOngoing rv = consume rv plainRuntime None emptyIdStream None (initialState ''T'')"



section \<open>Properties of the store methods and the handlers\<close>

lemma map_of_Map_set: "map_of (Map_set k v kvs) = (map_of kvs)(k \<mapsto> v)"
  by (induction kvs) auto

lemma Map_get_Map_set:
  "Map_get i (Map_set k v kvs) = (if i = k then Some v else Map_get i kvs)"
  by (simp add: Map_get_def map_of_Map_set)

lemmas method_defs =
  store_appendMessage_def store_updateMessage_def openResearch_def closeResearch_def
  setOngoingResearch_def setResponding_def addPaperSection_def setPaperOutline_def
  setCompletedPaper_def resetPaperState_def clearFinalPaper_def
  checkAndFetchFinalPaper_def getOngoingResearchId_def

lemma addSectionOf_sections:
  "paperSections (addSectionOf rt m s) =
     (case sectionBody rt m of Some b \<Rightarrow> paperSections s @ [b] | None \<Rightarrow> paperSections s)"
  by (simp add: addSectionOf_def sectionBody_def addPaperSection_def split: option.splits)

lemma addSectionOf_frame:
  "messageIds (addSectionOf rt m s) = messageIds s"
  "messages (addSectionOf rt m s) = messages s"
  "researchIds (addSectionOf rt m s) = researchIds s"
  "researchPlanIds (addSectionOf rt m s) = researchPlanIds s"
  "researchReportIds (addSectionOf rt m s) = researchReportIds s"
  "researchActivityIds (addSectionOf rt m s) = researchActivityIds s"
  "ongoingResearchId (addSectionOf rt m s) = ongoingResearchId s"
  "openResearchId (addSectionOf rt m s) = openResearchId s"
  "paperOutlineId (addSectionOf rt m s) = paperOutlineId s"
  "completedPaperId (addSectionOf rt m s) = completedPaperId s"
  "finalPaper (addSectionOf rt m s) = finalPaper s"
  "finalPaperLoading (addSectionOf rt m s) = finalPaperLoading s"
  "finalPaperError (addSectionOf rt m s) = finalPaperError s"
  "timers (addSectionOf rt m s) = timers s"
  "fetchCalls (addSectionOf rt m s) = fetchCalls s"
  "responding (addSectionOf rt m s) = responding s"
  by (simp_all add: addSectionOf_def addPaperSection_def split: option.splits)

lemma paperWorkflow_frame:
  "messageIds (paperWorkflow rv rt m s) = messageIds s"
  "messages (paperWorkflow rv rt m s) = messages s"
  "researchIds (paperWorkflow rv rt m s) = researchIds s"
  "researchPlanIds (paperWorkflow rv rt m s) = researchPlanIds s"
  "researchReportIds (paperWorkflow rv rt m s) = researchReportIds s"
  "researchActivityIds (paperWorkflow rv rt m s) = researchActivityIds s"
  "ongoingResearchId (paperWorkflow rv rt m s) = ongoingResearchId s"
  "openResearchId (paperWorkflow rv rt m s) = openResearchId s"
  "finalPaper (paperWorkflow rv rt m s) = finalPaper s"
  "finalPaperLoading (paperWorkflow rv rt m s) = finalPaperLoading s"
  "finalPaperError (paperWorkflow rv rt m s) = finalPaperError s"
  "fetchCalls (paperWorkflow rv rt m s) = fetchCalls s"
  "responding (paperWorkflow rv rt m s) = responding s"
  by (simp_all add: paperWorkflow_def Let_def method_defs addSectionOf_frame)

lemma paperWorkflow_outline:
  assumes "agent m = Some ''outline_writer''" "\<not> isStreaming m"
  shows "paperSections (paperWorkflow rv rt m s) = []"
    and "completedPaperId (paperWorkflow rv rt m s) = None"
    and "paperOutlineId (paperWorkflow rv rt m s) = Some (id' m)"
    and "timers (paperWorkflow rv rt m s) = timers s"
  using assms by (simp_all add: paperWorkflow_def Let_def method_defs)

lemma paperWorkflow_paper_writer:
  assumes "agent m = Some ''paper_writer''" "\<not> isStreaming m"
  shows "paperSections (paperWorkflow rv rt m s) =
           (case sectionBody rt m of Some b \<Rightarrow> paperSections s @ [b] | None \<Rightarrow> paperSections s)"
    and "paperOutlineId (paperWorkflow rv rt m s) = paperOutlineId s"
    and "completedPaperId (paperWorkflow rv rt m s) = completedPaperId s"
  using assms
  by (simp_all add: paperWorkflow_def Let_def method_defs addSectionOf_sections addSectionOf_frame)

lemma updateMessage_paper_fields:
  "paperSections (updateMessage rv rt m s) = paperSections (paperWorkflow rv rt m s)"
  "paperOutlineId (updateMessage rv rt m s) = paperOutlineId (paperWorkflow rv rt m s)"
  "completedPaperId (updateMessage rv rt m s) = completedPaperId (paperWorkflow rv rt m s)"
  by (simp_all add: updateMessage_def Let_def method_defs paperWorkflow_def addSectionOf_def split: option.splits)

lemma updateMessage_frame:
  "messageIds (updateMessage rv rt m s) = messageIds s"
  "messages (updateMessage rv rt m s) = Map_set (id' m) m (messages s)"
  "researchIds (updateMessage rv rt m s) = researchIds s"
  "researchPlanIds (updateMessage rv rt m s) = researchPlanIds s"
  "researchReportIds (updateMessage rv rt m s) = researchReportIds s"
  "researchActivityIds (updateMessage rv rt m s) = researchActivityIds s"
  "openResearchId (updateMessage rv rt m s) = openResearchId s"
  "finalPaper (updateMessage rv rt m s) = finalPaper s"
  "finalPaperLoading (updateMessage rv rt m s) = finalPaperLoading s"
  "finalPaperError (updateMessage rv rt m s) = finalPaperError s"
  "fetchCalls (updateMessage rv rt m s) = fetchCalls s"
  by (simp_all add: updateMessage_def Let_def store_updateMessage_def setOngoingResearch_def
      paperWorkflow_frame)

lemma updateMessage_ongoing:
  "ongoingResearchId (updateMessage rv rt m s) =
     (if truthy (ongoingResearchId s) \<and> agent m = Some ''reporter'' \<and> \<not> isStreaming m \<and>
         \<not> isPaperWritingWorkflow s
      then None else ongoingResearchId s)"
  by (simp add: updateMessage_def Let_def store_updateMessage_def setOngoingResearch_def
      paperWorkflow_frame getOngoingResearchId_def)

lemma updateMessage_outline_commit:
  assumes "agent m = Some ''outline_writer''" "\<not> isStreaming m"
  shows "paperOutlineId (updateMessage rv rt m s) = Some (id' m)"
    and "paperSections (updateMessage rv rt m s) = []"
  using assms by (simp_all add: updateMessage_paper_fields paperWorkflow_outline)

lemma updateMessage_paper_commit:
  assumes "agent m = Some ''paper_writer''" "\<not> isStreaming m"
  shows "paperSections (updateMessage rv rt m s) =
           (case sectionBody rt m of Some b \<Rightarrow> paperSections s @ [b] | None \<Rightarrow> paperSections s)"
    and "paperOutlineId (updateMessage rv rt m s) = paperOutlineId s"
  using assms by (simp_all add: updateMessage_paper_fields paperWorkflow_paper_writer)

lemma appendResearch_Inr:
  assumes "appendResearch r s = Inr s'"
  shows "messageIds s' = messageIds s" and "messages s' = messages s"
    and "researchIds s' = researchIds s @ [r]" and "ongoingResearchId s' = Some r"
    and "paperSections s' = paperSections s" and "paperOutlineId s' = paperOutlineId s"
    and "completedPaperId s' = completedPaperId s"
  using assms by (auto simp: appendResearch_def split: option.splits)

lemma appendResearchActivity_Inr:
  assumes "appendResearchActivity m s = Inr s'"
  shows "messageIds s' = messageIds s" and "messages s' = messages s"
    and "researchIds s' = researchIds s" and "ongoingResearchId s' = ongoingResearchId s"
    and "openResearchId s' = openResearchId s"
    and "researchPlanIds s' = researchPlanIds s"
    and "paperSections s' = paperSections s" and "paperOutlineId s' = paperOutlineId s"
    and "completedPaperId s' = completedPaperId s"
  using assms
  by (auto simp: appendResearchActivity_def getOngoingResearchId_def Let_def
      split: option.splits if_splits)

lemma appendMessage_Inr:
  assumes "appendMessage rv rt m s = Inr s'"
  shows "messageIds s' = messageIds s @ [id' m]"
    and "messages s' = Map_set (id' m) m (messages s)"
    and "(researchIds s' = researchIds s \<and> ongoingResearchId s' = ongoingResearchId s) \<or>
         (isResearchAgent rv (agent m) \<and> \<not> truthy (ongoingResearchId s) \<and>
          researchIds s' = researchIds s @ [id' m] \<and> ongoingResearchId s' = Some (id' m))"
proof -
  from assms obtain s1 where
    r1: "(if isResearchAgent rv (agent m) then
           (case (if \<not> truthy (getOngoingResearchId s)
                  then (case appendResearch (id' m) s of
                          Inl e \<Rightarrow> Inl e
                        | Inr s' \<Rightarrow> Inr (openResearch (Some (id' m)) s'))
                  else Inr s) of
              Inl e \<Rightarrow> Inl e
            | Inr s' \<Rightarrow> appendResearchActivity m s')
         else Inr s) = Inr s1"
    and s': "s' = store_appendMessage m (paperWorkflow rv rt m s1)"
    by (auto simp: appendMessage_def Let_def split: sum.splits)
  have ids: "messageIds s1 = messageIds s \<and> messages s1 = messages s \<and>
     ((researchIds s1 = researchIds s \<and> ongoingResearchId s1 = ongoingResearchId s) \<or>
      (isResearchAgent rv (agent m) \<and> \<not> truthy (ongoingResearchId s) \<and>
       researchIds s1 = researchIds s @ [id' m] \<and> ongoingResearchId s1 = Some (id' m)))"
  proof (cases "isResearchAgent rv (agent m)")
    case False
    with r1 show ?thesis by simp
  next
    case True
    show ?thesis
    proof (cases "truthy (ongoingResearchId s)")
      case True
      with r1 \<open>isResearchAgent rv (agent m)\<close>
      have "appendResearchActivity m s = Inr s1" by (simp add: getOngoingResearchId_def)
      then show ?thesis by (simp add: appendResearchActivity_Inr)
    next
      case False
      with r1 \<open>isResearchAgent rv (agent m)\<close> obtain s0 where
        a: "appendResearch (id' m) s = Inr s0"
        and b: "appendResearchActivity m (openResearch (Some (id' m)) s0) = Inr s1"
        by (auto simp: getOngoingResearchId_def split: sum.splits)
      from appendResearchActivity_Inr [OF b] appendResearch_Inr [OF a] False
        \<open>isResearchAgent rv (agent m)\<close>
      show ?thesis by (simp add: openResearch_def)
    qed
  qed
  from ids s' show "messageIds s' = messageIds s @ [id' m]"
    by (simp add: store_appendMessage_def paperWorkflow_frame)
  from ids s' show "messages s' = Map_set (id' m) m (messages s)"
    by (simp add: store_appendMessage_def paperWorkflow_frame)
  from ids s' show "(researchIds s' = researchIds s \<and> ongoingResearchId s' = ongoingResearchId s) \<or>
         (isResearchAgent rv (agent m) \<and> \<not> truthy (ongoingResearchId s) \<and>
          researchIds s' = researchIds s @ [id' m] \<and> ongoingResearchId s' = Some (id' m))"
    by (simp add: store_appendMessage_def paperWorkflow_frame)
qed

lemma mergeAndUpdate_Inr:
  assumes "mergeAndUpdate rv rt e mo s = Inr s'"
  shows "messageIds s' = messageIds s" and "researchIds s' = researchIds s"
    and "ongoingResearchId s' = ongoingResearchId s \<or> ongoingResearchId s' = None"
  using assms
  by (auto simp: mergeAndUpdate_def updateMessage_frame updateMessage_ongoing
      split: option.splits sum.splits if_splits)

lemma mergeAndUpdate_Inl:
  assumes "mergeAndUpdate rv rt e mo s = Inl (err, s')"
  shows "s' = s"
  using assms by (auto simp: mergeAndUpdate_def split: option.splits sum.splits)

lemma newMessage_id [simp]: "id' (newMessage fb e) = ev_id e"
  by (simp add: newMessage_def)

lemma processEvent_Inr_messageIds:
  assumes "processEvent rv rt fb e s = Inr s'"
  shows "messageIds s' =
           (if ev_type e \<noteq> ''tool_call_result'' \<and> ev_id e \<notin> set (messageIds s)
            then messageIds s @ [ev_id e] else messageIds s)"
proof (cases "ev_type e = ''tool_call_result''")
  case True
  with assms show ?thesis
    by (auto simp: processEvent_def dest: mergeAndUpdate_Inr(1) split: option.splits)
next
  case False
  show ?thesis
  proof (cases "existsMessage (ev_id e) s")
    case True
    with False assms show ?thesis
      by (auto simp: processEvent_def existsMessage_def dest: mergeAndUpdate_Inr(1))
  next
    case nex: False
    with False assms obtain s1 where
      a: "appendMessage rv rt (newMessage fb e) s = Inr s1"
      and b: "mergeAndUpdate rv rt e (Some (newMessage fb e)) s1 = Inr s'"
      by (auto simp: processEvent_def split: sum.splits)
    from appendMessage_Inr(1) [OF a] mergeAndUpdate_Inr(1) [OF b] False nex
    show ?thesis by (simp add: existsMessage_def)
  qed
qed

lemma processEvent_Inl_messageIds:
  assumes "processEvent rv rt fb e s = Inl (err, s')"
  shows "messageIds s' = messageIds s \<or>
         (ev_id e \<notin> set (messageIds s) \<and> messageIds s' = messageIds s @ [ev_id e])"
proof (cases "ev_type e \<noteq> ''tool_call_result'' \<and> \<not> existsMessage (ev_id e) s")
  case False
  with assms show ?thesis
    by (auto simp: processEvent_def dest: mergeAndUpdate_Inl split: option.splits if_splits)
next
  case True
  show ?thesis
  proof (cases "appendMessage rv rt (newMessage fb e) s")
    case (Inl x)
    with True assms show ?thesis by (simp add: processEvent_def)
  next
    case (Inr s1)
    with True assms have "mergeAndUpdate rv rt e (Some (newMessage fb e)) s1 = Inl (err, s')"
      by (simp add: processEvent_def)
    then have "s' = s1" by (rule mergeAndUpdate_Inl)
    with appendMessage_Inr(1) [OF Inr] True show ?thesis by (simp add: existsMessage_def)
  qed
qed

lemma catchBlock_messageIds [simp]: "messageIds (catchBlock mid s) = messageIds s"
  by (simp add: catchBlock_def Let_def setOngoingResearch_def store_updateMessage_def
      split: option.splits)

lemma setResponding_messageIds [simp]: "messageIds (setResponding v s) = messageIds s"
  by (simp add: setResponding_def)

lemma processEvent_distinct:
  assumes "distinct (messageIds s)"
  shows "processEvent rv rt fb e s = Inr s' \<Longrightarrow> distinct (messageIds s')"
    and "processEvent rv rt fb e s = Inl (err, s') \<Longrightarrow> distinct (messageIds s')"
  using assms processEvent_Inr_messageIds [of rv rt fb e s s']
    processEvent_Inl_messageIds [of rv rt fb e s err s']
  by (auto split: if_splits)

lemma consume_distinct:
  "distinct (messageIds s) \<Longrightarrow> distinct (messageIds (consume rv rt fb stream mid s))"
proof (induction stream arbitrary: mid s)
  case Nil
  then show ?case by simp
next
  case (Cons it stream)
  show ?case
  proof (cases it)
    case TransportFailure
    with Cons.prems show ?thesis by simp
  next
    case (Increment e)
    show ?thesis
    proof (cases "processEvent rv rt fb e s")
      case (Inl p)
      obtain err s' where p: "p = (err, s')" by (cases p)
      with Inl Cons.prems have "distinct (messageIds s')"
        by (auto dest: processEvent_distinct(2))
      with Inl p Increment show ?thesis by simp
    next
      case (Inr s')
      with Cons.prems have "distinct (messageIds s')"
        by (auto dest: processEvent_distinct(1))
      from Cons.IH [OF this] Inr Increment show ?thesis by simp
    qed
  qed
qed

lemmas run_defs =
  processEvent_def mergeAndUpdate_def appendMessage_def updateMessage_def paperWorkflow_def
  appendResearch_def appendResearchActivity_def isResearchAgent_def isPaperWritingWorkflow_def
  existsMessage_def getMessage_def findMessageByToolCallId_def Map_get_def Map_values_def
  newMessage_def catchBlock_def method_defs addSectionOf_def initialState_def
  plainRuntime_def mergeMessage_spec_def chunk_def finish_def toolResult_def committed_def
  Let_def

lemma shouldFetch_Bundled: "shouldFetch Bundled rt s = specConditions s"
  by (auto simp: shouldFetch_def specConditions_def hasPaperWriters_def allMessages_def
      streamingReferencesWriters_def completedReferencesWriters_def anyStreamingMessages_def
      list_ex_iff filter_empty_conv)

lemma shouldFetch_Store_ts:
  "shouldFetch Store_ts rt s =
     (hasPaperWriters s \<and> streamingPaperWriters s = [] \<and> \<not> anyStreamingMessages s \<and>
      expectedSections rt s \<le> length (completedPaperWriters s) \<and> finalPaper s = None)"
  by (simp add: shouldFetch_def)

lemma shouldFetch_workflow:
  "shouldFetch rv rt s \<Longrightarrow> hasPaperWriters s \<and> isPaperWritingWorkflow s"
  by (cases rv)
    (auto simp: shouldFetch_def hasPaperWriters_def isPaperWritingWorkflow_def allMessages_def
      list_ex_iff)

lemma completionCheck_eq:
  "completionCheck rv rt tid s = (if shouldFetch rv rt s then fetchFinalPaper_begin tid s else s)"
  using shouldFetch_workflow [of rv rt s] by (auto simp: completionCheck_def)

lemma fetchFinalPaper_begin_neq: "fetchFinalPaper_begin tid s \<noteq> s"
proof
  assume "fetchFinalPaper_begin tid s = s"
  then have "fetchCalls (fetchFinalPaper_begin tid s) = fetchCalls s"
    by (rule arg_cong)
  then show False by (simp add: fetchFinalPaper_begin_def)
qed

lemma completionCheck_fetches:
  "(fetchCalls (completionCheck rv rt tid s) = fetchCalls s @ [tid]) = shouldFetch rv rt s"
  by (simp add: completionCheck_eq fetchFinalPaper_begin_def)

lemma completionCheck_unchanged:
  "(completionCheck rv rt tid s = s) = (\<not> shouldFetch rv rt s)"
  by (simp add: completionCheck_eq fetchFinalPaper_begin_neq)

lemma expectedSections_bounds: "2 \<le> expectedSections rt s \<and> expectedSections rt s \<le> 8"
  by (simp add: expectedSections_def Let_def split: option.splits)

lemmas check_defs =
  completionCheck_def shouldFetch_def specConditions_def hasPaperWriters_def allMessages_def
  streamingReferencesWriters_def completedReferencesWriters_def streamingPaperWriters_def
  completedPaperWriters_def anyStreamingMessages_def isPaperWritingWorkflow_def
  expectedSections_def maxSectionCount_def fetchFinalPaper_begin_def fireTimer_def
  Map_values_def committed_def initialState_def plainRuntime_def

lemma completionCheck_noop_when_artifact_present:
  "finalPaper s \<noteq> None \<Longrightarrow> completionCheck rv rt tid s = s"
  by (cases rv) (auto simp: completionCheck_def shouldFetch_def)

lemma shouldFetch_cong:
  assumes "messages s' = messages s" and "finalPaper s' = finalPaper s"
  shows "shouldFetch rv rt s' = shouldFetch rv rt s"
proof -
  have "allMessages s' = allMessages s"
    using assms(1) by (simp add: allMessages_def)
  then show ?thesis
    using assms(2)
    by (cases rv)
      (simp_all add: shouldFetch_def hasPaperWriters_def streamingReferencesWriters_def
        completedReferencesWriters_def streamingPaperWriters_def completedPaperWriters_def
        anyStreamingMessages_def expectedSections_def)
qed

lemma overlapping_checks_while_in_flight:
  assumes "shouldFetch rv rt s" and "timers s = t1 # t2 # rest"
  shows "fetchCalls (fireTimer rv rt (fireTimer rv rt s)) = fetchCalls s @ [t1, t2]"
proof -
  let ?s0 = "s\<lparr> timers := t2 # rest \<rparr>"
  have "shouldFetch rv rt ?s0 = shouldFetch rv rt s"
    by (rule shouldFetch_cong) simp_all
  with assms(1) have a: "shouldFetch rv rt ?s0" by simp
  have s1: "fireTimer rv rt s = fetchFinalPaper_begin t1 ?s0"
    using assms(2) a by (simp add: fireTimer_def completionCheck_eq)
  let ?s1 = "(fetchFinalPaper_begin t1 ?s0)\<lparr> timers := rest \<rparr>"
  have "shouldFetch rv rt ?s1 = shouldFetch rv rt s"
    by (rule shouldFetch_cong) (simp_all add: fetchFinalPaper_begin_def)
  with assms(1) have b: "shouldFetch rv rt ?s1" by simp
  have tm: "timers (fetchFinalPaper_begin t1 ?s0) = t2 # rest"
    and fc: "fetchCalls ?s1 = fetchCalls s @ [t1]"
    by (simp_all add: fetchFinalPaper_begin_def)
  have "fireTimer rv rt (fetchFinalPaper_begin t1 ?s0) = fetchFinalPaper_begin t2 ?s1"
    using tm b by (simp add: fireTimer_def completionCheck_eq)
  then show ?thesis
    unfolding s1 using fc by (simp add: fetchFinalPaper_begin_def)
qed

lemma one_fetch_when_first_succeeds:
  assumes "shouldFetch rv rt s" and "timers s = t1 # t2 # rest"
  shows "fetchCalls (fireTimer rv rt
           (fetchFinalPaper_resolve rv rt nid t1 (Inr fp) (fireTimer rv rt s)))
         = fetchCalls s @ [t1]"
proof -
  let ?s0 = "s\<lparr> timers := t2 # rest \<rparr>"
  have "shouldFetch rv rt ?s0 = shouldFetch rv rt s"
    by (rule shouldFetch_cong) simp_all
  with assms(1) have a: "shouldFetch rv rt ?s0" by simp
  have s1: "fireTimer rv rt s = fetchFinalPaper_begin t1 ?s0"
    using assms(2) a by (simp add: fireTimer_def completionCheck_eq)
  let ?s2 = "fetchFinalPaper_resolve rv rt nid t1 (Inr fp) (fetchFinalPaper_begin t1 ?s0)"
  have fp: "finalPaper ?s2 = Some fp" and tm: "timers ?s2 = t2 # rest"
    and fc: "fetchCalls ?s2 = fetchCalls s @ [t1]"
    by (simp_all add: fetchFinalPaper_resolve_def fetchFinalPaper_begin_def
        store_appendMessage_def Let_def)
  have "completionCheck rv rt t2 (?s2\<lparr> timers := rest \<rparr>) = ?s2\<lparr> timers := rest \<rparr>"
    by (rule completionCheck_noop_when_artifact_present) (simp add: fp)
  then have "fireTimer rv rt ?s2 = ?s2\<lparr> timers := rest \<rparr>"
    using tm by (simp add: fireTimer_def)
  then show ?thesis
    unfolding s1 using fc by simp
qed

lemma findPlanMessage_Some:
  "findPlanMessage ids s = Some p \<Longrightarrow>
   \<exists>k \<in> set ids. getMessage k s = Some p \<and> agent p = Some ''planner''"
  by (induction ids) (auto split: option.splits if_splits)

lemma findPlanMessage_exists:
  "\<exists>k \<in> set ids. \<exists>p. getMessage k s = Some p \<and> agent p = Some ''planner'' \<Longrightarrow>
   \<exists>p. findPlanMessage ids s = Some p"
  by (induction ids) (auto split: option.splits)

lemma keyed_Map_set:
  "list_all (\<lambda>(k, m). id' m = k) kvs \<Longrightarrow>
   list_all (\<lambda>(k, m). id' m = k) (Map_set (id' x) x kvs)"
  by (induction kvs) auto

lemma keyed_getMessage: "keyed s \<Longrightarrow> getMessage k s = Some p \<Longrightarrow> id' p = k"
  by (auto simp: keyed_def getMessage_def Map_get_def list_all_iff dest: map_of_SomeD)

lemma keyed_messages:
  "messages s' = messages s \<Longrightarrow> keyed s \<Longrightarrow> keyed s'"
  "messages s' = Map_set (id' x) x (messages s) \<Longrightarrow> keyed s \<Longrightarrow> keyed s'"
  by (simp_all add: keyed_def keyed_Map_set)

lemma mergeAndUpdate_messages:
  assumes "mergeAndUpdate rv rt e mo s = Inr s'"
  shows "messages s' = messages s \<or> (\<exists>x. messages s' = Map_set (id' x) x (messages s))"
  using assms
  by (auto simp: mergeAndUpdate_def updateMessage_frame split: option.splits sum.splits)

lemma mergeAndUpdate_keyed:
  "mergeAndUpdate rv rt e mo s = Inr s' \<Longrightarrow> keyed s \<Longrightarrow> keyed s'"
  by (auto dest!: mergeAndUpdate_messages intro: keyed_messages)

lemma appendMessage_keyed:
  "appendMessage rv rt m s = Inr s' \<Longrightarrow> keyed s \<Longrightarrow> keyed s'"
  by (auto dest!: appendMessage_Inr(2) intro: keyed_messages)

lemma processEvent_keyed:
  assumes "keyed s"
  shows "processEvent rv rt fb e s = Inr s' \<Longrightarrow> keyed s'"
    and "processEvent rv rt fb e s = Inl (err, s') \<Longrightarrow> keyed s'"
  using assms
  by (auto simp: processEvent_def split: option.splits if_splits sum.splits
      dest: mergeAndUpdate_keyed appendMessage_keyed mergeAndUpdate_Inl)

lemma keyed_methods:
  "keyed (setOngoingResearch r s) = keyed s"
  "keyed (setResponding v s) = keyed s"
  "keyed s \<Longrightarrow> keyed (store_updateMessage x s)"
  "keyed s \<Longrightarrow> keyed (store_appendMessage x s)"
  by (simp_all add: keyed_def setOngoingResearch_def setResponding_def store_updateMessage_def
      store_appendMessage_def keyed_Map_set)

lemma catchBlock_keyed: "keyed s \<Longrightarrow> keyed (catchBlock mid s)"
  by (simp add: catchBlock_def Let_def keyed_methods split: option.splits)

lemma fireTimer_frame:
  "messages (fireTimer rv rt s) = messages s"
  "messageIds (fireTimer rv rt s) = messageIds s"
  "researchIds (fireTimer rv rt s) = researchIds s"
  "ongoingResearchId (fireTimer rv rt s) = ongoingResearchId s"
  by (simp_all add: fireTimer_def completionCheck_eq fetchFinalPaper_begin_def
      split: list.splits)

lemma fetchFinalPaper_resolve_frame:
  "researchIds (fetchFinalPaper_resolve rv rt nid tid a s) = researchIds s"
  "ongoingResearchId (fetchFinalPaper_resolve rv rt nid tid a s) = ongoingResearchId s"
  "set (messageIds s) \<subseteq> set (messageIds (fetchFinalPaper_resolve rv rt nid tid a s))"
  "messages (fetchFinalPaper_resolve rv rt nid tid a s) = messages s \<or>
   (\<exists>x. messages (fetchFinalPaper_resolve rv rt nid tid a s) = Map_set (id' x) x (messages s))"
  by (auto simp: fetchFinalPaper_resolve_def store_appendMessage_def Let_def split: sum.splits)

lemma reachable_keyed: "reachable rv rt s \<Longrightarrow> keyed s"
proof (induction rule: reachable.induct)
  case (start THREAD_ID)
  show ?case by (simp add: keyed_def initialState_def)
next
  case (increment s e fb s')
  then show ?case by (auto dest: processEvent_keyed(1))
next
  case (thrown s e fb err s')
  then show ?case by (auto dest: processEvent_keyed(2))
next
  case (caught s messageId)
  then show ?case by (simp add: catchBlock_keyed)
next
  case (respond s v)
  then show ?case by (simp add: keyed_methods)
next
  case (user s nid THREAD_ID c s')
  then show ?case by (auto dest: appendMessage_keyed)
next
  case (timer s)
  then show ?case by (auto intro: keyed_messages(1) simp: fireTimer_frame)
next
  case (answer s nid tid a)
  with fetchFinalPaper_resolve_frame(4) [of rv rt nid tid a s]
  show ?case by (auto intro: keyed_messages)
next
  case (opened s researchId)
  then show ?case by (simp add: keyed_def openResearch_def)
next
  case (closed s)
  then show ?case by (simp add: keyed_def closeResearch_def)
qed

lemma processEvent_research:
  assumes "processEvent rv rt fb e s = Inr s' \<or> processEvent rv rt fb e s = Inl (err, s')"
  shows "set (messageIds s) \<subseteq> set (messageIds s') \<and>
         ((researchIds s' = researchIds s \<and>
           (ongoingResearchId s' = ongoingResearchId s \<or> ongoingResearchId s' = None)) \<or>
          (ev_id e \<notin> set (messageIds s) \<and> \<not> truthy (ongoingResearchId s) \<and>
           researchIds s' = researchIds s @ [ev_id e] \<and> ev_id e \<in> set (messageIds s') \<and>
           (ongoingResearchId s' = Some (ev_id e) \<or> ongoingResearchId s' = None)))"
proof (cases "ev_type e \<noteq> ''tool_call_result'' \<and> \<not> existsMessage (ev_id e) s")
  case False
  then have "(\<exists>mo. mergeAndUpdate rv rt e mo s = Inr s') \<or> s' = s"
    using assms
    by (auto simp: processEvent_def split: option.splits if_splits dest: mergeAndUpdate_Inl)
  then show ?thesis
    by (auto dest: mergeAndUpdate_Inr)
next
  case True
  then have new: "ev_id e \<notin> set (messageIds s)" by (simp add: existsMessage_def)
  show ?thesis
  proof (cases "appendMessage rv rt (newMessage fb e) s")
    case (Inl x)
    with True assms have "s' = s" by (simp add: processEvent_def)
    then show ?thesis by simp
  next
    case (Inr s1)
    note app = appendMessage_Inr [OF Inr, simplified]
    from True Inr assms
    have "mergeAndUpdate rv rt e (Some (newMessage fb e)) s1 = Inr s' \<or> s' = s1"
      by (auto simp: processEvent_def dest: mergeAndUpdate_Inl)
    then have step: "messageIds s' = messageIds s1 \<and> researchIds s' = researchIds s1 \<and>
        (ongoingResearchId s' = ongoingResearchId s1 \<or> ongoingResearchId s' = None)"
      by (auto dest: mergeAndUpdate_Inr)
    from app(3) show ?thesis
    proof
      assume "researchIds s1 = researchIds s \<and> ongoingResearchId s1 = ongoingResearchId s"
      with step app(1) show ?thesis by auto
    next
      assume "isResearchAgent rv (agent (newMessage fb e)) \<and> \<not> truthy (ongoingResearchId s) \<and>
          researchIds s1 = researchIds s @ [ev_id e] \<and> ongoingResearchId s1 = Some (ev_id e)"
      with step app(1) new show ?thesis by auto
    qed
  qed
qed

lemma catchBlock_research:
  "researchIds (catchBlock mid s) = researchIds s"
  "ongoingResearchId (catchBlock mid s) = None"
  by (simp_all add: catchBlock_def Let_def setOngoingResearch_def store_updateMessage_def
      split: option.splits)

lemma reachable_research:
  "reachable rv rt s \<Longrightarrow>
   distinct (researchIds s) \<and> set (researchIds s) \<subseteq> set (messageIds s) \<and>
   (ongoingResearchId s = None \<or>
    (\<exists>r. ongoingResearchId s = Some r \<and> r \<noteq> [] \<and> r \<in> set (researchIds s)))"
proof (induction rule: reachable.induct)
  case (start THREAD_ID)
  show ?case by (simp add: initialState_def)
next
  case (increment s e fb s')
  from processEvent_research [of rv rt fb e s s' undefined] increment.hyps(3)
  have "set (messageIds s) \<subseteq> set (messageIds s') \<and>
         ((researchIds s' = researchIds s \<and>
           (ongoingResearchId s' = ongoingResearchId s \<or> ongoingResearchId s' = None)) \<or>
          (ev_id e \<notin> set (messageIds s) \<and> \<not> truthy (ongoingResearchId s) \<and>
           researchIds s' = researchIds s @ [ev_id e] \<and> ev_id e \<in> set (messageIds s') \<and>
           (ongoingResearchId s' = Some (ev_id e) \<or> ongoingResearchId s' = None)))"
    by simp
  with increment.IH increment.hyps(2) show ?case by auto
next
  case (thrown s e fb err s')
  from processEvent_research [of rv rt fb e s s' err] thrown.hyps(3)
  have "set (messageIds s) \<subseteq> set (messageIds s') \<and>
         ((researchIds s' = researchIds s \<and>
           (ongoingResearchId s' = ongoingResearchId s \<or> ongoingResearchId s' = None)) \<or>
          (ev_id e \<notin> set (messageIds s) \<and> \<not> truthy (ongoingResearchId s) \<and>
           researchIds s' = researchIds s @ [ev_id e] \<and> ev_id e \<in> set (messageIds s') \<and>
           (ongoingResearchId s' = Some (ev_id e) \<or> ongoingResearchId s' = None)))"
    by simp
  with thrown.IH thrown.hyps(2) show ?case by auto
next
  case (caught s messageId)
  then show ?case by (simp add: catchBlock_research)
next
  case (respond s v)
  then show ?case by (simp add: setResponding_def)
next
  case (user s nid THREAD_ID c s')
  from appendMessage_Inr [OF user.hyps(2)]
  have "messageIds s' = messageIds s @ [nid]"
    and "researchIds s' = researchIds s \<and> ongoingResearchId s' = ongoingResearchId s"
    by (simp_all add: userMessage_def isResearchAgent_def)
  with user.IH show ?case by auto
next
  case (timer s)
  then show ?case by (simp add: fireTimer_frame)
next
  case (answer s nid tid a)
  with fetchFinalPaper_resolve_frame(3) [of s rv rt nid tid a]
  show ?case by (auto simp: fetchFinalPaper_resolve_frame(1,2))
next
  case (opened s researchId)
  then show ?case by (simp add: openResearch_def)
next
  case (closed s)
  then show ?case by (simp add: closeResearch_def)
qed

lemma distinct_filter_Some:
  "distinct xs \<Longrightarrow> length (filter (\<lambda>r. x = Some r) xs) \<le> 1"
  by (induction xs) (auto simp: filter_empty_conv)

lemma truthy_reachable:
  "reachable rv rt s \<Longrightarrow> truthy (ongoingResearchId s) = (ongoingResearchId s \<noteq> None)"
  by (drule reachable_research) auto

lemma reachable_consume:
  "reachable rv rt s \<Longrightarrow> properIds stream \<Longrightarrow>
   reachable rv rt (consume rv rt fb stream mid s)"
proof (induction stream arbitrary: mid s)
  case Nil
  then show ?case by (simp add: reachable.respond)
next
  case (Cons it stream)
  show ?case
  proof (cases it)
    case TransportFailure
    with Cons.prems show ?thesis by (simp add: reachable.respond reachable.caught)
  next
    case (Increment e)
    with Cons.prems have ne: "ev_id e \<noteq> []" and rest: "properIds stream"
      by (simp_all add: properIds_def)
    show ?thesis
    proof (cases "processEvent rv rt fb e s")
      case (Inl p)
      obtain err s' where p: "p = (err, s')" by (cases p)
      from Cons.prems(1) ne Inl p have "reachable rv rt s'"
        by (auto intro: reachable.thrown)
      with Inl p Increment show ?thesis
        by (simp add: reachable.respond reachable.caught)
    next
      case (Inr s')
      from Cons.prems(1) ne Inr have "reachable rv rt s'"
        by (auto intro: reachable.increment)
      from Cons.IH [OF this rest] Inr Increment show ?thesis by simp
    qed
  qed
qed



lemma commit_sets_timer:
  "agent m = Some ''references_writer'' \<Longrightarrow> \<not> isStreaming m \<Longrightarrow>
   timers (updateMessage Bundled rt m s) = timers s @ [threadId m]"
  "agent m = Some ''paper_writer'' \<Longrightarrow> \<not> isStreaming m \<Longrightarrow>
   timers (updateMessage Store_ts rt m s) = timers s @ [threadId m]"
  by (simp_all add: updateMessage_def paperWorkflow_def Let_def method_defs addSectionOf_frame)




text \<open>
  Research exclusivity for streams whose message ids are not empty: in every state of
  \<open>reachable\<close> at most one research id is marked ongoing, and a research is started only
  when the ongoing marker is null.
\<close>

lemma research_exclusivity:
  assumes "reachable rv rt s"
  shows "length (filter (\<lambda>r. ongoingResearchId s = Some r) (researchIds s)) \<le> 1 \<and>
         (\<forall>m s'. appendMessage rv rt m s = Inr s' \<and> researchIds s' \<noteq> researchIds s \<longrightarrow>
            ongoingResearchId s = None \<and> researchIds s' = researchIds s @ [id' m] \<and>
            ongoingResearchId s' = Some (id' m)) \<and>
         (\<forall>m s'. appendMessage rv rt m s = Inr s' \<and> ongoingResearchId s \<noteq> None \<longrightarrow>
            researchIds s' = researchIds s \<and> ongoingResearchId s' = ongoingResearchId s) \<and>
         (\<forall>fb e s'. processEvent rv rt fb e s = Inr s' \<and> ongoingResearchId s \<noteq> None \<longrightarrow>
            researchIds s' = researchIds s)"
proof -
  from assms have d: "distinct (researchIds s)"
    and t: "truthy (ongoingResearchId s) = (ongoingResearchId s \<noteq> None)"
    by (simp_all add: reachable_research truthy_reachable)
  have one: "length (filter (\<lambda>r. ongoingResearchId s = Some r) (researchIds s)) \<le> 1"
    using d by (rule distinct_filter_Some)
  have app: "ongoingResearchId s = None \<and> researchIds s' = researchIds s @ [id' m] \<and>
      ongoingResearchId s' = Some (id' m)"
    if "appendMessage rv rt m s = Inr s'" and "researchIds s' \<noteq> researchIds s" for m s'
    using appendMessage_Inr(3) [OF that(1)] that(2) t by auto
  have keep: "researchIds s' = researchIds s \<and> ongoingResearchId s' = ongoingResearchId s"
    if "appendMessage rv rt m s = Inr s'" and "ongoingResearchId s \<noteq> None" for m s'
    using appendMessage_Inr(3) [OF that(1)] that(2) t by auto
  have ev: "researchIds s' = researchIds s"
    if "processEvent rv rt fb e s = Inr s'" and "ongoingResearchId s \<noteq> None" for fb e s'
    using processEvent_research [of rv rt fb e s s' undefined] that t by auto
  from one app keep ev show ?thesis by blast
qed

lemma research_exclusivity_proper_run:
  "reachable Bundled plainRuntime
     (consume Bundled plainRuntime None planThenResearch None (initialState ''T'')) \<and>
   ongoingResearchId
     (consume Bundled plainRuntime None planThenResearch None (initialState ''T'')) = Some ''r1'' \<and>
   length (filter (\<lambda>r. ongoingResearchId
       (consume Bundled plainRuntime None planThenResearch None (initialState ''T'')) = Some r)
     (researchIds
       (consume Bundled plainRuntime None planThenResearch None (initialState ''T'')))) \<le> 1"
proof -
  have p: "properIds planThenResearch"
    by (simp add: properIds_def planThenResearch_def chunk_def finish_def)
  have r: "reachable Bundled plainRuntime
     (consume Bundled plainRuntime None planThenResearch None (initialState ''T''))"
    by (rule reachable_consume [OF reachable.start p])
  have o: "ongoingResearchId
     (consume Bundled plainRuntime None planThenResearch None (initialState ''T'')) = Some ''r1''"
    by (simp add: planThenResearch_def run_defs)
  have l: "length (filter (\<lambda>r. ongoingResearchId
       (consume Bundled plainRuntime None planThenResearch None (initialState ''T'')) = Some r)
     (researchIds
       (consume Bundled plainRuntime None planThenResearch None (initialState ''T'')))) \<le> 1"
    using research_exclusivity [OF r] by (rule conjunct1)
  from r o l show ?thesis by (intro conjI)
qed

section \<open>The claims\<close>

text \<open>
  Claim C1, as amended. In the bundled copy the deferred check invokes the fetch if and
  only if the conditions (a) to (e) hold, and otherwise leaves the state as it is. In
  \<^verbatim>\<open>store.ts\<close> it invokes the fetch if and only if a \<^verbatim>\<open>paper_writer\<close> message exists, no
  \<^verbatim>\<open>paper_writer\<close> message is streaming, no message is streaming, the committed
  \<^verbatim>\<open>paper_writer\<close> messages are at least as many as the expected sections, and no final
  artifact is present.
\<close>

theorem completion_check_fetch_iff:
  "(fetchCalls (completionCheck Bundled rt tid s) = fetchCalls s @ [tid]) = specConditions s \<and>
   (completionCheck Bundled rt tid s = s) = (\<not> specConditions s) \<and>
   (fetchCalls (completionCheck Store_ts rt tid s) = fetchCalls s @ [tid]) =
     (list_ex (\<lambda>msg. agent msg = Some ''paper_writer'') (Map_values (messages s)) \<and>
      \<not> list_ex (\<lambda>msg. agent msg = Some ''paper_writer'' \<and> isStreaming msg)
           (Map_values (messages s)) \<and>
      \<not> list_ex isStreaming (Map_values (messages s)) \<and>
      expectedSections rt s \<le>
        length (filter (\<lambda>msg. agent msg = Some ''paper_writer'' \<and> \<not> isStreaming msg)
                  (Map_values (messages s))) \<and>
      finalPaper s = None) \<and>
   (completionCheck Store_ts rt tid s = s) =
     (\<not> (fetchCalls (completionCheck Store_ts rt tid s) = fetchCalls s @ [tid]))"
proof -
  have st: "shouldFetch Store_ts rt s =
     (list_ex (\<lambda>msg. agent msg = Some ''paper_writer'') (Map_values (messages s)) \<and>
      \<not> list_ex (\<lambda>msg. agent msg = Some ''paper_writer'' \<and> isStreaming msg)
           (Map_values (messages s)) \<and>
      \<not> list_ex isStreaming (Map_values (messages s)) \<and>
      expectedSections rt s \<le>
        length (filter (\<lambda>msg. agent msg = Some ''paper_writer'' \<and> \<not> isStreaming msg)
                  (Map_values (messages s))) \<and>
      finalPaper s = None)"
    by (auto simp: shouldFetch_def hasPaperWriters_def allMessages_def
        streamingPaperWriters_def completedPaperWriters_def anyStreamingMessages_def
        list_ex_iff filter_empty_conv)
  show ?thesis
    by (simp only: completionCheck_fetches completionCheck_unchanged shouldFetch_Bundled st simp_thms)
qed

text \<open>
  Claim C1 as stated fails in \<^verbatim>\<open>store.ts\<close>: with one committed section and committed
  references the conditions (a) to (e) hold and the bundled copy fetches, but the check of
  \<^verbatim>\<open>store.ts\<close> does nothing (one section is fewer than the three expected).
\<close>

theorem store_ts_check_waits_for_sections:
  "specConditions referencesDone \<and>
   completionCheck Store_ts plainRuntime ''T'' referencesDone = referencesDone \<and>
   fetchCalls (completionCheck Bundled plainRuntime ''T'' referencesDone) = [''T'']"
  by (simp add: check_defs referencesDone_def)

text \<open>
  Claim C2, as amended. The expected section count is always between 2 and 8. In the
  bundled copy the outcome of the check is the same whatever the estimate is, and the
  fetch is decided by the conditions (a) to (e) alone. In \<^verbatim>\<open>store.ts\<close> the estimate gates
  the fetch: the check acts exactly when its other conditions hold and the committed
  \<^verbatim>\<open>paper_writer\<close> messages are at least as many as the estimate.
\<close>

theorem expected_sections_role:
  "2 \<le> expectedSections rt s \<and> expectedSections rt s \<le> 8 \<and>
   completionCheck Bundled rt tid s = completionCheck Bundled rt' tid s \<and>
   (completionCheck Bundled rt tid s \<noteq> s) = specConditions s \<and>
   (completionCheck Store_ts rt tid s \<noteq> s) =
     (hasPaperWriters s \<and> streamingPaperWriters s = [] \<and> \<not> anyStreamingMessages s \<and>
      finalPaper s = None \<and> expectedSections rt s \<le> length (completedPaperWriters s))"
proof -
  have "completionCheck Bundled rt tid s = completionCheck Bundled rt' tid s"
    by (simp add: completionCheck_eq shouldFetch_Bundled)
  then show ?thesis
    using expectedSections_bounds [of rt s]
    by (auto simp: completionCheck_unchanged shouldFetch_Bundled shouldFetch_Store_ts)
qed

text \<open>
  Claim C2 as stated fails in \<^verbatim>\<open>store.ts\<close>: on the same store, with two committed sections,
  the check does nothing when the estimate is 3 and fetches when the estimate is 2.
\<close>

theorem store_ts_estimate_gates_fetch:
  "expectedSections plainRuntime twoSections = 3 \<and>
   expectedSections (plainRuntime\<lparr> matchCount := (\<lambda>p c. 1) \<rparr>) twoSections = 2 \<and>
   length (completedPaperWriters twoSections) = 2 \<and>
   completionCheck Store_ts plainRuntime ''T'' twoSections = twoSections \<and>
   fetchCalls (completionCheck Store_ts (plainRuntime\<lparr> matchCount := (\<lambda>p c. 1) \<rparr>) ''T'' twoSections)
     = [''T'']"
  by (simp add: check_defs twoSections_def)

text \<open>
  Claim C3 at the failing input: two timers are pending and both fire before the first
  request is answered. Each check finds no final artifact and invokes the fetch: two
  invocations, in either copy.
\<close>

theorem overlapping_checks_fetch_twice:
  "timers bothTimers = [''T'', ''T''] \<and> fetchCalls bothTimers = [] \<and>
   fetchCalls (fireTimer Bundled plainRuntime (fireTimer Bundled plainRuntime bothTimers))
     = [''T'', ''T''] \<and>
   finalPaper (fireTimer Bundled plainRuntime (fireTimer Bundled plainRuntime bothTimers)) = None \<and>
   fetchCalls (fireTimer Store_ts plainRuntime (fireTimer Store_ts plainRuntime threeSections))
     = [''T'', ''T'']"
  by (simp add: check_defs bothTimers_def referencesDone_def threeSections_def)

text \<open>
  Claim C4 at the failing input: the first message of a researcher carries the empty
  string as its id. After it the ongoing marker is the empty string, not null, and the
  list of researches holds that one id; the next researcher's message \<open>r2\<close> passes the test
  \<^verbatim>\<open>!getOngoingResearchId()\<close> and starts a second research, in either copy.
\<close>

theorem empty_id_starts_second_research:
  "ongoingResearchId (emptyIdOngoing Store_ts) = Some [] \<and>
   researchIds (emptyIdOngoing Store_ts) = [[]] \<and>
   map_sum (\<lambda>(err, s'). researchIds s') researchIds
     (processEvent Store_ts plainRuntime None (chunk ''r2'' ''researcher'' ''more'')
        (emptyIdOngoing Store_ts)) = Inr [[], ''r2''] \<and>
   map_sum (\<lambda>(err, s'). ongoingResearchId s') ongoingResearchId
     (processEvent Store_ts plainRuntime None (chunk ''r2'' ''researcher'' ''more'')
        (emptyIdOngoing Store_ts)) = Inr (Some ''r2'') \<and>
   ongoingResearchId (emptyIdOngoing Bundled) = Some [] \<and>
   researchIds (emptyIdOngoing Bundled) = [[]] \<and>
   map_sum (\<lambda>(err, s'). researchIds s') researchIds
     (processEvent Bundled plainRuntime None (chunk ''r2'' ''researcher'' ''more'')
        (emptyIdOngoing Bundled)) = Inr [[], ''r2''] \<and>
   researchIds
     (consume Store_ts plainRuntime None
        (emptyIdStream @ [Increment (chunk ''r2'' ''researcher'' ''more'')]) None
        (initialState ''T'')) = [[], ''r2'']"
  by (simp add: emptyIdOngoing_def emptyIdStream_def run_defs)

text \<open>
  Claim C5. When a research is created (no research ongoing, a message with a research
  agent is appended, and a \<^verbatim>\<open>planner\<close> message is in the ordered list), its plan id is the
  id of a message tagged \<^verbatim>\<open>planner\<close> that is in the ordered list before the trigger is
  appended to it, and its activity list is the plan id followed by the trigger's id.
\<close>

theorem planner_linkage:
  assumes "reachable rv rt s"
    and "isResearchAgent rv (agent m)"
    and "ongoingResearchId s = None"
    and "\<exists>k \<in> set (messageIds s). \<exists>p. getMessage k s = Some p \<and> agent p = Some ''planner''"
  shows "\<exists>s' p. appendMessage rv rt m s = Inr s' \<and>
           researchIds s' = researchIds s @ [id' m] \<and>
           researchPlanIds s' (id' m) = Some (id' p) \<and>
           getMessage (id' p) s = Some p \<and> agent p = Some ''planner'' \<and>
           id' p \<in> set (messageIds s) \<and>
           messageIds s' = messageIds s @ [id' m] \<and>
           researchActivityIds s' (id' m) = Some [id' p, id' m] \<and>
           ongoingResearchId s' = Some (id' m) \<and> openResearchId s' = Some (id' m)"
proof -
  from assms(4) obtain p where fp: "findPlanMessage (rev (messageIds s)) s = Some p"
    using findPlanMessage_exists [of "rev (messageIds s)" s] by auto
  from findPlanMessage_Some [OF fp] obtain k where
    k: "k \<in> set (messageIds s)" "getMessage k s = Some p" "agent p = Some ''planner''"
    by auto
  from reachable_keyed [OF assms(1)] k(2) have kp: "id' p = k" by (rule keyed_getMessage)
  let ?s0 = "s\<lparr> ongoingResearchId := Some (id' m),
                  researchIds := researchIds s @ [id' m],
                  researchPlanIds := (researchPlanIds s)(id' m \<mapsto> id' p),
                  researchActivityIds := (researchActivityIds s)(id' m \<mapsto> [id' p, id' m]) \<rparr>"
  have ar: "appendResearch (id' m) s = Inr ?s0"
    using fp by (simp add: appendResearch_def)
  let ?s1 = "openResearch (Some (id' m)) ?s0"
  obtain s2 where act: "appendResearchActivity m ?s1 = Inr s2"
    and f2: "researchIds s2 = researchIds ?s1" "researchPlanIds s2 = researchPlanIds ?s1"
      "researchActivityIds s2 (id' m) = Some [id' p, id' m]"
      "ongoingResearchId s2 = Some (id' m)" "openResearchId s2 = Some (id' m)"
      "messageIds s2 = messageIds s"
    by (cases "id' m = []")
      (auto simp: appendResearchActivity_def getOngoingResearchId_def openResearch_def Let_def)
  let ?s' = "store_appendMessage m (paperWorkflow rv rt m s2)"
  have am: "appendMessage rv rt m s = Inr ?s'"
    using assms(2,3) ar act by (simp add: appendMessage_def getOngoingResearchId_def)
  have "researchIds ?s' = researchIds s @ [id' m]"
    "researchPlanIds ?s' (id' m) = Some (id' p)"
    "messageIds ?s' = messageIds s @ [id' m]"
    "researchActivityIds ?s' (id' m) = Some [id' p, id' m]"
    "ongoingResearchId ?s' = Some (id' m)" "openResearchId ?s' = Some (id' m)"
    using f2 by (simp_all add: store_appendMessage_def paperWorkflow_frame openResearch_def)
  with am k kp show ?thesis by blast
qed

text \<open>After the planner's message, a researcher's message starts a research planned by \<open>pl\<close>.\<close>

theorem planner_linkage_witness:
  "reachable Store_ts plainRuntime (planned Store_ts) \<and>
   messageIds (planned Store_ts) = [''pl''] \<and>
   isResearchAgent Store_ts (agent (committed ''r1'' ''researcher'' ''notes'')) \<and>
   ongoingResearchId (planned Store_ts) = None \<and>
   (\<exists>s' p. appendMessage Store_ts plainRuntime (committed ''r1'' ''researcher'' ''notes'')
              (planned Store_ts) = Inr s' \<and>
           researchIds s' = researchIds (planned Store_ts) @ [id' (committed ''r1'' ''researcher'' ''notes'')] \<and>
           researchPlanIds s' (id' (committed ''r1'' ''researcher'' ''notes'')) = Some (id' p) \<and>
           getMessage (id' p) (planned Store_ts) = Some p \<and> agent p = Some ''planner'' \<and>
           id' p \<in> set (messageIds (planned Store_ts)) \<and>
           messageIds s' = messageIds (planned Store_ts) @ [id' (committed ''r1'' ''researcher'' ''notes'')] \<and>
           researchActivityIds s' (id' (committed ''r1'' ''researcher'' ''notes'')) =
             Some [id' p, id' (committed ''r1'' ''researcher'' ''notes'')] \<and>
           ongoingResearchId s' = Some (id' (committed ''r1'' ''researcher'' ''notes'')) \<and>
           openResearchId s' = Some (id' (committed ''r1'' ''researcher'' ''notes'')))"
proof -
  let ?m = "committed ''r1'' ''researcher'' ''notes''"
  have p: "properIds planOnly"
    by (simp add: properIds_def planOnly_def chunk_def finish_def)
  have r: "reachable Store_ts plainRuntime (planned Store_ts)"
    unfolding planned_def by (rule reachable_consume [OF reachable.start p])
  have ids: "messageIds (planned Store_ts) = [''pl'']"
    and o: "ongoingResearchId (planned Store_ts) = None"
    and g: "agent (the (getMessage ''pl'' (planned Store_ts))) = Some ''planner''"
       "getMessage ''pl'' (planned Store_ts) \<noteq> None"
    by (simp_all add: planned_def planOnly_def run_defs)
  have a: "isResearchAgent Store_ts (agent ?m)"
    by (simp add: committed_def isResearchAgent_def)
  have ex: "\<exists>k \<in> set (messageIds (planned Store_ts)).
      \<exists>p. getMessage k (planned Store_ts) = Some p \<and> agent p = Some ''planner''"
    using ids g by auto
  note c = planner_linkage [OF r a o ex]
  from r ids a o c show ?thesis by (intro conjI)
qed

text \<open>
  Claim C6, as amended. After a committed outline, a committed section \<open>A\<close>, a second
  committed outline and a committed section \<open>B\<close>, \<^verbatim>\<open>paperSections\<close> is \<open>[B]\<close>. Every committed
  \<^verbatim>\<open>outline_writer\<close> message sets \<^verbatim>\<open>paperOutlineId\<close> to its id and empties \<^verbatim>\<open>paperSections\<close>. A
  committed \<^verbatim>\<open>paper_writer\<close> message appends its section body when it has one (a non-empty
  \<^verbatim>\<open>section_content\<close> field, else content that is not blank) and appends nothing otherwise.
\<close>

theorem section_reset_on_new_outline:
  assumes "agent o1 = Some ''outline_writer''" "\<not> isStreaming o1"
    and "agent p1 = Some ''paper_writer''" "\<not> isStreaming p1" "sectionBody rt p1 = Some A"
    and "agent o2 = Some ''outline_writer''" "\<not> isStreaming o2"
    and "agent p2 = Some ''paper_writer''" "\<not> isStreaming p2" "sectionBody rt p2 = Some B"
  shows "paperSections
           (updateMessage rv rt p2 (updateMessage rv rt o2
             (updateMessage rv rt p1 (updateMessage rv rt o1 s)))) = [B] \<and>
         paperOutlineId
           (updateMessage rv rt p2 (updateMessage rv rt o2
             (updateMessage rv rt p1 (updateMessage rv rt o1 s)))) = Some (id' o2) \<and>
         paperOutlineId (updateMessage rv rt o1 s) = Some (id' o1) \<and>
         paperSections (updateMessage rv rt o1 s) = [] \<and>
         paperSections (updateMessage rv rt p1 s) = paperSections s @ [A] \<and>
         (\<forall>p. agent p = Some ''paper_writer'' \<and> \<not> isStreaming p \<and> sectionBody rt p = None \<longrightarrow>
              paperSections (updateMessage rv rt p s) = paperSections s)"
  using assms
  by (simp add: updateMessage_outline_commit updateMessage_paper_commit)

text \<open>The four commits of the claim, with the plain texts \<open>A\<close> and \<open>B\<close> as sections, in \<^verbatim>\<open>store.ts\<close>.\<close>

theorem section_reset_on_new_outline_witness:
  "sectionBody plainRuntime (committed ''p1'' ''paper_writer'' ''A'') = Some ''A'' \<and>
   sectionBody plainRuntime (committed ''p2'' ''paper_writer'' ''B'') = Some ''B'' \<and>
   paperSections
     (updateMessage Store_ts plainRuntime (committed ''p2'' ''paper_writer'' ''B'')
       (updateMessage Store_ts plainRuntime (committed ''o2'' ''outline_writer'' ''# Second'')
         (updateMessage Store_ts plainRuntime (committed ''p1'' ''paper_writer'' ''A'')
           (updateMessage Store_ts plainRuntime (committed ''o1'' ''outline_writer'' ''# First'')
             paperState)))) = [''B''] \<and>
   paperOutlineId
     (updateMessage Store_ts plainRuntime (committed ''p2'' ''paper_writer'' ''B'')
       (updateMessage Store_ts plainRuntime (committed ''o2'' ''outline_writer'' ''# Second'')
         (updateMessage Store_ts plainRuntime (committed ''p1'' ''paper_writer'' ''A'')
           (updateMessage Store_ts plainRuntime (committed ''o1'' ''outline_writer'' ''# First'')
             paperState)))) = Some ''o2''"
proof -
  have ws: "\<not> isWhiteSpace CHR ''A''" "\<not> isWhiteSpace CHR ''B''"
    by (simp_all add: isWhiteSpace_def)
  have a: "sectionBody plainRuntime (committed ''p1'' ''paper_writer'' ''A'') = Some ''A''"
    and b: "sectionBody plainRuntime (committed ''p2'' ''paper_writer'' ''B'') = Some ''B''"
    using ws by (simp_all add: sectionBody_def plainRuntime_def committed_def trim_def)
  have c: "agent (committed ''o1'' ''outline_writer'' ''# First'') = Some ''outline_writer''"
    "\<not> isStreaming (committed ''o1'' ''outline_writer'' ''# First'')"
    "agent (committed ''p1'' ''paper_writer'' ''A'') = Some ''paper_writer''"
    "\<not> isStreaming (committed ''p1'' ''paper_writer'' ''A'')"
    "agent (committed ''o2'' ''outline_writer'' ''# Second'') = Some ''outline_writer''"
    "\<not> isStreaming (committed ''o2'' ''outline_writer'' ''# Second'')"
    "agent (committed ''p2'' ''paper_writer'' ''B'') = Some ''paper_writer''"
    "\<not> isStreaming (committed ''p2'' ''paper_writer'' ''B'')"
    "id' (committed ''o2'' ''outline_writer'' ''# Second'') = ''o2''"
    by (simp_all add: committed_def)
  from section_reset_on_new_outline [OF c(1) c(2) c(3) c(4) a c(5) c(6) c(7) c(8) b,
      of Store_ts paperState] a b c(9)
  show ?thesis by simp
qed

text \<open>
  Claim C6 as stated fails: a committed \<^verbatim>\<open>paper_writer\<close> message with empty content appends
  no section, in either copy.
\<close>

theorem blank_paper_writer_appends_no_section:
  "agent (committed ''p1'' ''paper_writer'' '''') = Some ''paper_writer'' \<and>
   \<not> isStreaming (committed ''p1'' ''paper_writer'' '''') \<and>
   paperSections (updateMessage Store_ts plainRuntime (committed ''p1'' ''paper_writer'' '''') paperState)
     = paperSections paperState \<and>
   paperSections (updateMessage Bundled plainRuntime (committed ''p1'' ''paper_writer'' '''') paperState)
     = paperSections paperState"
proof -
  have a: "agent (committed ''p1'' ''paper_writer'' '''') = Some ''paper_writer''"
    "\<not> isStreaming (committed ''p1'' ''paper_writer'' '''')"
    by (simp_all add: committed_def)
  have b: "sectionBody plainRuntime (committed ''p1'' ''paper_writer'' '''') = None"
    by (simp add: sectionBody_def plainRuntime_def committed_def trim_def)
  show ?thesis
    using a b by (simp add: updateMessage_paper_commit)
qed

text \<open>
  Claim C7, as amended. The ordered id list has no duplicates after any stream, whatever
  the loop was given and however it ended. An increment that is processed without a throw
  appends its id exactly when the id is not yet in the list and the increment is not a
  tool call result; every other increment leaves the list as it was.
\<close>

theorem append_once:
  assumes "distinct (messageIds s)"
  shows "distinct (messageIds (consume rv rt fb stream mid s)) \<and>
         (\<forall>e s'. processEvent rv rt fb e s = Inr s' \<longrightarrow>
            messageIds s' =
              (if ev_type e \<noteq> ''tool_call_result'' \<and> ev_id e \<notin> set (messageIds s)
               then messageIds s @ [ev_id e] else messageIds s) \<and>
            distinct (messageIds s'))"
  using assms
  by (auto simp: consume_distinct processEvent_Inr_messageIds)

text \<open>The planner's message arrives in two increments: its id is in the list once.\<close>

theorem append_once_witness:
  "distinct (messageIds (initialState ''T'')) \<and>
   distinct (messageIds
     (consume Bundled plainRuntime None
        [Increment (chunk ''pl'' ''planner'' ''plan''), Increment (finish ''pl'' ''planner'')]
        None (initialState ''T''))) \<and>
   messageIds
     (consume Bundled plainRuntime None
        [Increment (chunk ''pl'' ''planner'' ''plan''), Increment (finish ''pl'' ''planner'')]
        None (initialState ''T'')) = [''pl'']"
proof -
  have a: "distinct (messageIds (initialState ''T''))"
    by (simp add: initialState_def)
  have b: "messageIds
     (consume Bundled plainRuntime None
        [Increment (chunk ''pl'' ''planner'' ''plan''), Increment (finish ''pl'' ''planner'')]
        None (initialState ''T'')) = [''pl'']"
    by (simp add: run_defs)
  from append_once [OF a, of Bundled plainRuntime None
      "[Increment (chunk ''pl'' ''planner'' ''plan''), Increment (finish ''pl'' ''planner'')]" None]
    a b
  show ?thesis by simp
qed

text \<open>
  Claim C7 as stated fails: the first increment that references the id \<open>t1\<close> is the result
  of a tool call, and \<open>t1\<close> is not appended, neither when no message owns the call nor when
  the result is merged into the message that made the call.
\<close>

theorem tool_result_increment_appends_nothing:
  "ev_id (toolResult ''t1'' ''call1'' ''found'') = ''t1'' \<and>
   ''t1'' \<notin> set (messageIds (initialState ''T'')) \<and>
   processEvent Bundled plainRuntime None (toolResult ''t1'' ''call1'' ''found'') (initialState ''T'')
     = Inr (initialState ''T'') \<and>
   ''t1'' \<notin> set (messageIds withToolCall) \<and>
   map_sum (\<lambda>(err, s'). messageIds s') messageIds
     (processEvent Bundled plainRuntime None (toolResult ''t1'' ''call1'' ''found'') withToolCall)
     = Inr (messageIds withToolCall)"
  by (simp add: run_defs withToolCall_def researching_def)



text \<open>
  Claim C9. \<^verbatim>\<open>fetchFinalPaper\<close> sets loading and clears the error before the service is
  called; a response is stored and ends loading; a failure stores the error's message (or
  a fixed text), ends loading and leaves the stored artifact as it was. Both copies.
\<close>

theorem fetchFinalPaper_contract:
  "finalPaperLoading (fetchFinalPaper_begin tid s) = True \<and>
   finalPaperError (fetchFinalPaper_begin tid s) = None \<and>
   finalPaper (fetchFinalPaper_begin tid s) = finalPaper s \<and>
   fetchCalls (fetchFinalPaper_begin tid s) = fetchCalls s @ [tid] \<and>
   finalPaper (fetchFinalPaper_resolve rv rt nid tid (Inr fp) s) = Some fp \<and>
   finalPaperLoading (fetchFinalPaper_resolve rv rt nid tid (Inr fp) s) = False \<and>
   finalPaperError (fetchFinalPaper_resolve rv rt nid tid (Inl e) s) = Some (errorMessage e) \<and>
   finalPaperLoading (fetchFinalPaper_resolve rv rt nid tid (Inl e) s) = False \<and>
   finalPaper (fetchFinalPaper_resolve rv rt nid tid (Inl e) s) = finalPaper s \<and>
   errorMessage (ErrorObject msg) = msg \<and>
   errorMessage OtherValue = ''Failed to fetch final paper''"
  by (simp add: fetchFinalPaper_begin_def fetchFinalPaper_resolve_def errorMessage_def
      store_appendMessage_def Let_def)




end
